theory Spec2Isabelle
  imports Main
begin

section \<open>JavaScript strings\<close>

text \<open>
  A JavaScript string is modelled as a \<^typ>\<open>string\<close>: one \<^typ>\<open>char\<close> per code unit, the
  \<^typ>\<open>char\<close> with number \<open>n\<close> standing for the code unit \<open>n\<close>.  Code units above 255 are
  outside the model.  \<open>null\<close> and \<open>undefined\<close> are \<^const>\<open>None\<close> of an option type.
\<close>

definition isUpper :: "char \<Rightarrow> bool" where
  "isUpper c = (c \<in> set ''ABCDEFGHIJKLMNOPQRSTUVWXYZ'')"

definition isLower :: "char \<Rightarrow> bool" where
  "isLower c = (c \<in> set ''abcdefghijklmnopqrstuvwxyz'')"

definition isDigit :: "char \<Rightarrow> bool" where
  "isDigit c = (c \<in> set ''0123456789'')"

text \<open>
  White space and line terminators of ECMAScript below code unit 256: tab, line feed,
  vertical tab, form feed, carriage return, space and the no-break space.
\<close>

definition isSpace :: "char \<Rightarrow> bool" where
  "isSpace c = (c \<in> set [CHR 0x09, CHR 0x0A, CHR 0x0B, CHR 0x0C, CHR 0x0D, CHR '' '', CHR 0xA0])"

definition isLineTerminator :: "char \<Rightarrow> bool" where
  "isLineTerminator c = (c \<in> set [CHR 0x0A, CHR 0x0D])"

definition upperChar :: "char \<Rightarrow> char" where
  "upperChar c =
     (case map_of (zip ''abcdefghijklmnopqrstuvwxyz'' ''ABCDEFGHIJKLMNOPQRSTUVWXYZ'') c of
        None \<Rightarrow> c
      | Some u \<Rightarrow> u)"

definition lowerChar :: "char \<Rightarrow> char" where
  "lowerChar c =
     (case map_of (zip ''ABCDEFGHIJKLMNOPQRSTUVWXYZ'' ''abcdefghijklmnopqrstuvwxyz'') c of
        None \<Rightarrow> c
      | Some l \<Rightarrow> l)"

text \<open>
  \<open>String.prototype.toUpperCase\<close> on the letters \<open>a\<close> to \<open>z\<close>.  The source applies it
  only to text matched by \<open>[A-Z][A-Z0-9]+-\d+\<close>, which holds ASCII letters, digits and
  a hyphen.
\<close>

definition toUpperCase :: "string \<Rightarrow> string" where
  "toUpperCase s = map upperChar s"

text \<open>\<open>String.prototype.trim\<close>: white space and line terminators leave both ends.\<close>

definition trim :: "string \<Rightarrow> string" where
  "trim s = rev (dropWhile isSpace (rev (dropWhile isSpace s)))"

definition startsWith :: "string \<Rightarrow> string \<Rightarrow> bool" where
  "startsWith s p = (take (length p) s = p)"

definition endsWith :: "string \<Rightarrow> string \<Rightarrow> bool" where
  "endsWith s p = (length p \<le> length s \<and> drop (length s - length p) s = p)"

text \<open>A value in a condition: \<open>null\<close>, \<open>undefined\<close> and the empty string are falsy.\<close>

definition truthy :: "string option \<Rightarrow> bool" where
  "truthy v = (case v of None \<Rightarrow> False | Some s \<Rightarrow> s \<noteq> [])"

section \<open>Regular expressions\<close>

text \<open>
  The fragment of ECMAScript regular expressions that the extension's patterns use.  A
  quantifier applies to a character class; \<open>+\<close> and \<open>*\<close> are greedy, \<open>+?\<close> is lazy.
\<close>

datatype citem = Chr char | Range char char | Digit | White

datatype cclass = OneOf "citem list" | NoneOf "citem list" | AnyChar

datatype regex =
    Lit string
  | Cls cclass
  | Many1 cclass
  | Many0 cclass
  | Lazy1 cclass
  | Opt regex
  | Cat regex regex
  | Cap regex
  | Eoi

text \<open>
  Under the flag \<open>i\<close> a character matches a class member when both have the same
  canonical (upper case) form; no code unit from 128 on is canonicalised to an ASCII one.
\<close>

definition canon :: "bool \<Rightarrow> char \<Rightarrow> char" where
  "canon ic c = (if ic then upperChar c else c)"

definition inRange :: "char \<Rightarrow> char \<Rightarrow> char \<Rightarrow> bool" where
  "inRange lo hi c = ((of_char lo :: nat) \<le> of_char c \<and> (of_char c :: nat) \<le> of_char hi)"

fun inItem :: "bool \<Rightarrow> citem \<Rightarrow> char \<Rightarrow> bool" where
  "inItem ic (Chr x) c = (canon ic c = canon ic x)"
| "inItem ic (Range lo hi) c =
     (inRange lo hi c \<or> (ic \<and> (inRange lo hi (upperChar c) \<or> inRange lo hi (lowerChar c))))"
| "inItem ic Digit c = isDigit c"
| "inItem ic White c = isSpace c"

fun inClass :: "bool \<Rightarrow> cclass \<Rightarrow> char \<Rightarrow> bool" where
  "inClass ic (OneOf items) c = list_ex (\<lambda>it. inItem ic it c) items"
| "inClass ic (NoneOf items) c = (\<not> list_ex (\<lambda>it. inItem ic it c) items)"
| "inClass ic AnyChar c = (\<not> isLineTerminator c)"

text \<open>
  A greedy quantifier on a class: the inputs left after the longest run of characters of
  the class and after each shorter one, the longest run first.
\<close>

fun many :: "(char \<Rightarrow> bool) \<Rightarrow> string \<Rightarrow> string list" where
  "many P [] = [[]]"
| "many P (c # t) = (if P c then many P t @ [c # t] else [c # t])"

text \<open>
  The backtracking matcher: every way the expression matches a prefix of the input, in
  the order in which the engine tries them, each with the text of its capture groups
  and the input that is left.  No pattern of the extension has a capture group under
  \<open>?\<close>.
\<close>

fun rmatch :: "bool \<Rightarrow> regex \<Rightarrow> string \<Rightarrow> (string list \<times> string) list" where
  "rmatch ic (Lit []) s = [([], s)]"
| "rmatch ic (Lit (x # xs)) [] = []"
| "rmatch ic (Lit (x # xs)) (c # t) = (if canon ic c = canon ic x then rmatch ic (Lit xs) t else [])"
| "rmatch ic (Cls k) [] = []"
| "rmatch ic (Cls k) (c # t) = (if inClass ic k c then [([], t)] else [])"
| "rmatch ic (Many1 k) [] = []"
| "rmatch ic (Many1 k) (c # t) =
     (if inClass ic k c then map (Pair []) (many (inClass ic k) t) else [])"
| "rmatch ic (Many0 k) s = map (Pair []) (many (inClass ic k) s)"
| "rmatch ic (Lazy1 k) [] = []"
| "rmatch ic (Lazy1 k) (c # t) =
     (if inClass ic k c then map (Pair []) (rev (many (inClass ic k) t)) else [])"
| "rmatch ic (Opt r) s = rmatch ic r s @ [([], s)]"
| "rmatch ic (Cat a b) s =
     concat (map (\<lambda>(g1, s1). map (\<lambda>(g2, s2). (g1 @ g2, s2)) (rmatch ic b s1)) (rmatch ic a s))"
| "rmatch ic (Cap r) s =
     map (\<lambda>(g, s'). (take (length s - length s') s # g, s')) (rmatch ic r s)"
| "rmatch ic Eoi s = (if s = [] then [([], [])] else [])"

text \<open>
  \<open>RegExp.prototype.exec\<close> without the flag \<open>g\<close>: the first match from the leftmost
  offset that has one; the result is the list of the capture groups' texts.
\<close>

fun exec :: "bool \<Rightarrow> regex \<Rightarrow> string \<Rightarrow> string list option" where
  "exec ic r [] = (case rmatch ic r [] of [] \<Rightarrow> None | m # _ \<Rightarrow> Some (fst m))"
| "exec ic r (c # t) = (case rmatch ic r (c # t) of [] \<Rightarrow> exec ic r t | m # _ \<Rightarrow> Some (fst m))"

definition test :: "bool \<Rightarrow> regex \<Rightarrow> string \<Rightarrow> bool" where
  "test ic r s = (exec ic r s \<noteq> None)"

text \<open>A pattern that begins with \<open>^\<close> matches at offset 0 only.\<close>

definition testFromStart :: "bool \<Rightarrow> regex \<Rightarrow> string \<Rightarrow> bool" where
  "testFromStart ic r s = (rmatch ic r s \<noteq> [])"

text \<open>\<open>leaves ic r s rest\<close>: the expression matches a prefix of \<open>s\<close> and leaves \<open>rest\<close>.\<close>

definition leaves :: "bool \<Rightarrow> regex \<Rightarrow> string \<Rightarrow> string \<Rightarrow> bool" where
  "leaves ic r s rest = (rest \<in> snd ` set (rmatch ic r s))"

fun seq :: "regex list \<Rightarrow> regex" where
  "seq [] = Lit []"
| "seq [r] = r"
| "seq (r # rs) = Cat r (seq rs)"

section \<open>The background script: hasIdentifiableIssue\<close>

text \<open>
  The object that \<open>new URL(url)\<close> builds, with the fields the script reads and the
  fragment, which it does not read.  \<open>searchParams\<close> is the list of name and value pairs
  of the query string.
\<close>

record urlObj =
  hostname :: string
  pathname :: string
  searchParams :: "(string \<times> string) list"
  hash :: string

datatype js_error = TypeError | ReferenceError | NotAllowedError

text \<open>
  The URL parser is the browser's: it is a parameter of the model, and throws a
  \<open>TypeError\<close> on a string that is no URL.
\<close>

type_synonym url_parser = "string \<Rightarrow> js_error + urlObj"

definition sp_has :: "(string \<times> string) list \<Rightarrow> string \<Rightarrow> bool" where
  "sp_has ps n = (n \<in> set (map fst ps))"

definition sp_get :: "(string \<times> string) list \<Rightarrow> string \<Rightarrow> string option" where
  "sp_get ps n = map_of ps n"

definition upperAZ :: citem where
  "upperAZ = Range CHR ''A'' CHR ''Z''"

definition issueKeyRe :: regex where
  "issueKeyRe = seq [Cls (OneOf [upperAZ]), Many1 (OneOf [upperAZ, Range CHR ''0'' CHR ''9'']),
     Lit ''-'', Many1 (OneOf [Digit])]"

text \<open>\<open>/\/browse\/[A-Z][A-Z0-9]+-\d+/i\<close>\<close>

definition directIssueRe :: regex where
  "directIssueRe = Cat (Lit ''/browse/'') issueKeyRe"

definition boardPrefixRe :: regex where
  "boardPrefixRe = seq [Lit ''/jira/software/'', Many1 (NoneOf [Chr CHR ''/'']), Lit ''/boards/'',
     Many1 (OneOf [Digit])]"

text \<open>\<open>/\/jira\/software\/[^/]+\/boards\/\d+\/?$/\<close>\<close>

definition boardRe :: regex where
  "boardRe = seq [boardPrefixRe, Opt (Lit ''/''), Eoi]"

text \<open>\<open>/\/jira\/software\/[^/]+\/boards\/\d+\/backlog\/?/\<close>\<close>

definition backlogRe :: regex where
  "backlogRe = seq [boardPrefixRe, Lit ''/backlog'', Opt (Lit ''/'')]"

text \<open>\<open>/\/jira\/software\/[^/]+\/boards\/\d+\/timeline\/?/\<close>\<close>

definition timelineRe :: regex where
  "timelineRe = seq [boardPrefixRe, Lit ''/timeline'', Opt (Lit ''/'')]"

text \<open>The body of the \<open>try\<close> block: the constructor may throw, nothing else does.\<close>

definition tryBody :: "url_parser \<Rightarrow> string \<Rightarrow> js_error + bool" where
  "tryBody newURL url =
     (case newURL url of
        Inl e \<Rightarrow> Inl e
      | Inr u \<Rightarrow> Inr
          (if \<not> endsWith (hostname u) ''.atlassian.net'' then False
           else if test True directIssueRe (pathname u) then True
           else if test False boardRe (pathname u) then sp_has (searchParams u) ''selectedIssue''
           else if test False backlogRe (pathname u) then sp_has (searchParams u) ''selectedIssue''
           else if test False timelineRe (pathname u) then sp_has (searchParams u) ''selectedIssue''
           else if startsWith (pathname u) ''/jira/'' \<and> sp_has (searchParams u) ''selectedIssue''
             then True
           else False))"

text \<open>
  The function returns a boolean or throws: the \<open>catch\<close> clause turns every error of the
  \<open>try\<close> block into \<open>false\<close>.
\<close>

definition hasIdentifiableIssue :: "url_parser \<Rightarrow> string option \<Rightarrow> js_error + bool" where
  "hasIdentifiableIssue newURL url =
     (case url of
        None \<Rightarrow> Inr False
      | Some s \<Rightarrow>
          if s = [] then Inr False
          else (case tryBody newURL s of Inl e \<Rightarrow> Inr False | Inr b \<Rightarrow> Inr b))"

text \<open>
  A parser given by a table of the strings it accepts, each with the object built from
  it; every other string throws.
\<close>

definition parseTable :: "(string \<times> urlObj) list \<Rightarrow> url_parser" where
  "parseTable tbl s = (case map_of tbl s of None \<Rightarrow> Inl TypeError | Some u \<Rightarrow> Inr u)"

section \<open>The popup: copyHtmlToClipboard\<close>

text \<open>
  The two calls of the clipboard interface are parameters: each takes the clipboard and
  returns the clipboard it leaves, or the error it rejects with.  \<open>clipboardWrite\<close> stands
  for building the two blobs and the \<open>ClipboardItem\<close> and awaiting
  \<open>navigator.clipboard.write\<close>, \<open>clipboardWriteText\<close> for awaiting
  \<open>navigator.clipboard.writeText\<close>.
\<close>

definition copyHtmlToClipboard ::
  "(string \<Rightarrow> string \<Rightarrow> 'c \<Rightarrow> js_error + 'c) \<Rightarrow> (string \<Rightarrow> 'c \<Rightarrow> js_error + 'c) \<Rightarrow>
     string \<Rightarrow> string \<Rightarrow> 'c \<Rightarrow> js_error + 'c" where
  "copyHtmlToClipboard clipboardWrite clipboardWriteText html plain c =
     (case clipboardWrite html plain c of
        Inr c' \<Rightarrow> Inr c'
      | Inl err \<Rightarrow> clipboardWriteText html c)"

text \<open>A clipboard for examples: what it holds under each of the two types.\<close>

record clipboard =
  textHtml :: "string option"
  textPlain :: "string option"

definition unsupportedWrite :: "string \<Rightarrow> string \<Rightarrow> clipboard \<Rightarrow> js_error + clipboard" where
  "unsupportedWrite h t c = Inl ReferenceError"

definition plainWrite :: "string \<Rightarrow> clipboard \<Rightarrow> js_error + clipboard" where
  "plainWrite t c = Inr \<lparr>textHtml = None, textPlain = Some t\<rparr>"

section \<open>The content script: extractIssueData and generateFormats\<close>

text \<open>
  What the script reads of the page: \<open>window.location.href\<close> and \<open>origin\<close>, the pairs
  that \<open>new URLSearchParams(window.location.search)\<close> holds, \<open>document.title\<close>, and
  \<open>document.querySelector\<close> as the map from a selector to the \<open>textContent\<close> of the first
  element it selects.
\<close>

record page =
  locationHref :: string
  locationOrigin :: string
  locationSearchParams :: "(string \<times> string) list"
  documentTitle :: string
  querySelector :: "string \<Rightarrow> string option"

record issueData =
  key :: "string option"
  summary :: "string option"
  url :: string

text \<open>\<open>/\/browse\/([A-Z][A-Z0-9]+-\d+)/i\<close>\<close>

definition urlKeyRe :: regex where
  "urlKeyRe = Cat (Lit ''/browse/'') (Cap issueKeyRe)"

text \<open>\<open>/^[A-Z][A-Z0-9]+-\d+$/i\<close>, without the leading \<open>^\<close>\<close>

definition wholeKeyRe :: regex where
  "wholeKeyRe = Cat issueKeyRe Eoi"

text \<open>\<open>/([A-Z][A-Z0-9]+-\d+)/i\<close>\<close>

definition textKeyRe :: regex where
  "textKeyRe = Cap issueKeyRe"

text \<open>\<open>/\[([A-Z][A-Z0-9]+-\d+)\]\s*(.+?)(?:\s*-\s*Jira)?$/i\<close>\<close>

definition titleRe :: regex where
  "titleRe = seq [Lit ''['', Cap issueKeyRe, Lit '']'', Many0 (OneOf [White]), Cap (Lazy1 AnyChar),
     Opt (seq [Many0 (OneOf [White]), Lit ''-'', Many0 (OneOf [White]), Lit ''Jira'']), Eoi]"

definition breadcrumbSelector :: string where
  \<open>breadcrumbSelector =
     ''[data-testid="issue.views.issue-base.foundation.breadcrumbs.current-issue.item"] a''\<close>

definition keySelectors :: "string list" where
  \<open>keySelectors =
    [''[data-testid="issue.views.issue-base.foundation.breadcrumbs.breadcrumb-current-issue-container"]'',
     ''[data-testid="issue.views.issue-base.foundation.breadcrumbs.current-issue.item"]'',
     ''#key-val'',
     ''.issue-link-key'',
     ''[data-test-id="issue.views.issue-details.issue-key"]'']\<close>

definition summarySelectors :: "string list" where
  \<open>summarySelectors =
    [''[data-testid="issue.views.issue-base.foundation.summary.heading"]'',
     ''[data-testid="issue.views.issue-details.issue-layout.summary"]'',
     ''#summary-val'',
     ''h1[data-testid="issue.views.issue-details.issue-header.title"]'',
     ''.ghx-summary'',
     ''h1.sc-bwzfXH'',
     ''[data-test-id="issue.views.issue-details.issue-header"]'']\<close>

text \<open>Strategy 1: the key from the URL.\<close>

definition keyFromUrl :: "page \<Rightarrow> issueData \<Rightarrow> issueData" where
  "keyFromUrl p d =
     (case exec True urlKeyRe (locationHref p) of
        Some (k # _) \<Rightarrow> d\<lparr>key := Some (toUpperCase k)\<rparr>
      | _ \<Rightarrow> d)"

text \<open>Strategy 2: the \<open>selectedIssue\<close> query parameter.\<close>

definition keyFromSelectedIssue :: "page \<Rightarrow> issueData \<Rightarrow> issueData" where
  "keyFromSelectedIssue p d =
     (if \<not> truthy (key d) then
        (case sp_get (locationSearchParams p) ''selectedIssue'' of
           None \<Rightarrow> d
         | Some selectedIssue \<Rightarrow>
             if selectedIssue \<noteq> [] \<and> testFromStart True wholeKeyRe selectedIssue
             then d\<lparr>key := Some (toUpperCase selectedIssue)\<rparr> else d)
      else d)"

text \<open>Strategy 3: the breadcrumb link, whose trimmed text becomes the key as it is.\<close>

definition keyFromBreadcrumb :: "page \<Rightarrow> issueData \<Rightarrow> issueData" where
  "keyFromBreadcrumb p d =
     (if \<not> truthy (key d) then
        (case querySelector p breadcrumbSelector of
           None \<Rightarrow> d
         | Some textContent \<Rightarrow> d\<lparr>key := Some (trim textContent)\<rparr>)
      else d)"

text \<open>The loop over \<open>keySelectors\<close>, left at the first element whose text holds a key.\<close>

fun keyLoop :: "page \<Rightarrow> string list \<Rightarrow> issueData \<Rightarrow> issueData" where
  "keyLoop p [] d = d"
| "keyLoop p (selector # rest) d =
     (case querySelector p selector of
        None \<Rightarrow> keyLoop p rest d
      | Some textContent \<Rightarrow>
          (case exec True textKeyRe textContent of
             Some (k # _) \<Rightarrow> d\<lparr>key := Some (toUpperCase k)\<rparr>
           | _ \<Rightarrow> keyLoop p rest d))"

definition keyFromSelectors :: "page \<Rightarrow> issueData \<Rightarrow> issueData" where
  "keyFromSelectors p d = (if \<not> truthy (key d) then keyLoop p keySelectors d else d)"

text \<open>The loop over \<open>summarySelectors\<close>, left at the first element with text.\<close>

fun summaryLoop :: "page \<Rightarrow> string list \<Rightarrow> issueData \<Rightarrow> issueData" where
  "summaryLoop p [] d = d"
| "summaryLoop p (selector # rest) d =
     (case querySelector p selector of
        None \<Rightarrow> summaryLoop p rest d
      | Some textContent \<Rightarrow>
          if trim textContent \<noteq> [] then d\<lparr>summary := Some (trim textContent)\<rparr>
          else summaryLoop p rest d)"

text \<open>The fallback: key and summary from a page title \<open>[KEY] Summary - Jira\<close>.\<close>

definition fromTitle :: "page \<Rightarrow> issueData \<Rightarrow> issueData" where
  "fromTitle p d =
     (if \<not> truthy (summary d) \<and> documentTitle p \<noteq> [] then
        (case exec True titleRe (documentTitle p) of
           Some (k # t # _) \<Rightarrow>
             (if \<not> truthy (key d) then d\<lparr>key := Some (toUpperCase k)\<rparr> else d)
               \<lparr>summary := Some (trim t)\<rparr>
         | _ \<Rightarrow> d)
      else d)"

text \<open>The last step: with a key, the URL becomes the canonical one.\<close>

definition canonicalUrl :: "page \<Rightarrow> issueData \<Rightarrow> issueData" where
  "canonicalUrl p d =
     (case key d of
        None \<Rightarrow> d
      | Some k \<Rightarrow> if k = [] then d else d\<lparr>url := locationOrigin p @ ''/browse/'' @ k\<rparr>)"

definition extractIssueData :: "page \<Rightarrow> issueData" where
  "extractIssueData p =
     canonicalUrl p (fromTitle p (summaryLoop p summarySelectors (keyFromSelectors p
       (keyFromBreadcrumb p (keyFromSelectedIssue p (keyFromUrl p
         \<lparr>key = None, summary = None, url = locationHref p\<rparr>))))))"

text \<open>
  \<open>escapeHtml\<close> sets the text of a new element and reads its \<open>innerHTML\<close>: the browser
  serialises the text node, writing \<open>&\<close>, \<open><\<close>, \<open>>\<close> and the no-break space as character
  references and every other character as it is.
\<close>

definition escapeChar :: "char \<Rightarrow> string" where
  "escapeChar c =
     (if c = CHR ''&'' then ''&amp;''
      else if c = CHR ''<'' then ''&lt;''
      else if c = CHR ''>'' then ''&gt;''
      else if c = CHR 0xA0 then ''&nbsp;''
      else [c])"

definition escapeHtml :: "string \<Rightarrow> string" where
  "escapeHtml text = concat (map escapeChar text)"

record formats =
  plainText :: string
  markdown :: string
  markdownShort :: string
  html :: string

definition generateFormats :: "issueData \<Rightarrow> formats option" where
  \<open>generateFormats d =
     (case key d of
        None \<Rightarrow> None
      | Some k \<Rightarrow>
          if k = [] then None
          else
            (let fullTitle = (case summary d of
                                None \<Rightarrow> k
                              | Some s \<Rightarrow> if s = [] then k else k @ '' - '' @ s)
             in Some \<lparr>plainText = fullTitle,
                      markdown = ''['' @ fullTitle @ '']('' @ url d @ '')'',
                      markdownShort = ''['' @ k @ '']('' @ url d @ '')'',
                      html = ''<a href="'' @ url d @ ''">'' @ escapeHtml fullTitle @ ''</a>''\<rparr>))\<close>

text \<open>
  A key as the data model wants it: absent, or text that the key pattern matches from
  end to end with the letters in upper case.
\<close>

definition validKey :: "string option \<Rightarrow> bool" where
  "validKey v =
     (case v of
        None \<Rightarrow> True
      | Some k \<Rightarrow> testFromStart False wholeKeyRe k \<and> toUpperCase k = k)"

section \<open>Example inputs\<close>

text \<open>URLs with the objects the browser builds from them.\<close>

definition foreignUrl :: string where
  "foreignUrl = ''https://example.com/browse/PROJ-123?selectedIssue=PROJ-123#top''"

definition foreignObj :: urlObj where
  "foreignObj = \<lparr>hostname = ''example.com'', pathname = ''/browse/PROJ-123'',
     searchParams = [(''selectedIssue'', ''PROJ-123'')], hash = ''#top''\<rparr>"

definition issueUrl :: string where
  "issueUrl = ''https://mycompany.atlassian.net/browse/PROJ-123?page=x#comment-12345''"

definition issueObj :: urlObj where
  "issueObj = \<lparr>hostname = ''mycompany.atlassian.net'', pathname = ''/browse/PROJ-123'',
     searchParams = [(''page'', ''x'')], hash = ''#comment-12345''\<rparr>"

definition boardUrl :: string where
  "boardUrl =
     ''https://mycompany.atlassian.net/jira/software/c/projects/PROJ/boards/1/backlog/?selectedIssue=invalid''"

definition boardObj :: urlObj where
  "boardObj = \<lparr>hostname = ''mycompany.atlassian.net'',
     pathname = ''/jira/software/c/projects/PROJ/boards/1/backlog/'',
     searchParams = [(''selectedIssue'', ''invalid'')], hash = []\<rparr>"

definition nestedUrl :: string where
  "nestedUrl =
     ''https://mycompany.atlassian.net/wiki/jira/software/PROJ/boards/1?selectedIssue=PROJ-7''"

definition nestedObj :: urlObj where
  "nestedObj = \<lparr>hostname = ''mycompany.atlassian.net'',
     pathname = ''/wiki/jira/software/PROJ/boards/1'',
     searchParams = [(''selectedIssue'', ''PROJ-7'')], hash = []\<rparr>"

definition settingsUrl :: string where
  "settingsUrl =
     ''https://mycompany.atlassian.net/jira/software/c/projects/PROJ/settings?selectedIssue=PROJ-123''"

definition settingsObj :: urlObj where
  "settingsObj = \<lparr>hostname = ''mycompany.atlassian.net'',
     pathname = ''/jira/software/c/projects/PROJ/settings'',
     searchParams = [(''selectedIssue'', ''PROJ-123'')], hash = []\<rparr>"

definition projectBoardUrl :: string where
  "projectBoardUrl =
     ''https://mycompany.atlassian.net/jira/software/PROJ/boards/42/?selectedIssue=PROJ-7''"

definition projectBoardObj :: urlObj where
  "projectBoardObj = \<lparr>hostname = ''mycompany.atlassian.net'',
     pathname = ''/jira/software/PROJ/boards/42/'',
     searchParams = [(''selectedIssue'', ''PROJ-7'')], hash = []\<rparr>"

text \<open>Issue data for \<open>generateFormats\<close>.\<close>

definition exampleIssue :: issueData where
  "exampleIssue = \<lparr>key = Some ''PROJ-123'', summary = Some ''Fix bug'',
     url = ''https://x.atlassian.net/browse/PROJ-123''\<rparr>"

definition bareIssue :: issueData where
  "bareIssue = \<lparr>key = Some ''PROJ-123'', summary = None,
     url = ''https://x.atlassian.net/browse/PROJ-123''\<rparr>"

definition emptySummaryIssue :: issueData where
  "emptySummaryIssue = \<lparr>key = Some ''PROJ-123'', summary = Some [],
     url = ''https://x.atlassian.net/browse/PROJ-123''\<rparr>"

definition emptyKeyIssue :: issueData where
  "emptyKeyIssue = \<lparr>key = Some [], summary = Some ''Fix bug'',
     url = ''https://x.atlassian.net/browse/PROJ-123''\<rparr>"

definition noKeyIssue :: issueData where
  "noKeyIssue = \<lparr>key = None, summary = Some ''Fix bug'',
     url = ''https://x.atlassian.net/jira/dashboards/1''\<rparr>"

definition quotedIssue :: issueData where
  \<open>quotedIssue = \<lparr>key = Some ''K-1'', summary = Some ''a<b & c'',
     url = ''https://x.atlassian.net/browse/K-1?q="<&>"''\<rparr>\<close>

text \<open>Pages for \<open>extractIssueData\<close>.\<close>

definition breadcrumbPage :: page where
  "breadcrumbPage = \<lparr>
     locationHref = ''https://mycompany.atlassian.net/jira/servicedesk/projects/PROJ/queues/1'',
     locationOrigin = ''https://mycompany.atlassian.net'',
     locationSearchParams = [],
     documentTitle = ''Queues - Jira'',
     querySelector = map_of [(breadcrumbSelector, '' Projects '')]\<rparr>"

definition blankBreadcrumbPage :: page where
  "blankBreadcrumbPage = \<lparr>
     locationHref = ''https://mycompany.atlassian.net/jira/servicedesk/projects/PROJ/queues/1'',
     locationOrigin = ''https://mycompany.atlassian.net'',
     locationSearchParams = [],
     documentTitle = ''Queues - Jira'',
     querySelector = map_of [(breadcrumbSelector, ''  '')]\<rparr>"

definition selectedPage :: page where
  "selectedPage = \<lparr>
     locationHref = ''https://mycompany.atlassian.net/jira/software/c/projects/PROJ/boards/1?selectedIssue=proj-7'',
     locationOrigin = ''https://mycompany.atlassian.net'',
     locationSearchParams = [(''selectedIssue'', ''proj-7'')],
     documentTitle = ''Board - Jira'',
     querySelector = map_of [(''#summary-val'', '' Fix bug '')]\<rparr>"

definition plainPage :: page where
  "plainPage = \<lparr>
     locationHref = ''https://mycompany.atlassian.net/jira/dashboards/1'',
     locationOrigin = ''https://mycompany.atlassian.net'',
     locationSearchParams = [],
     documentTitle = ''Dashboard - Jira'',
     querySelector = map_of []\<rparr>"

text \<open>A clipboard that holds nothing.\<close>

definition emptyClipboard :: clipboard where
  "emptyClipboard = \<lparr>textHtml = None, textPlain = None\<rparr>"

section \<open>Facts about the matcher\<close>

lemma rmatch_Lit_append: "rmatch ic (Lit cs) (cs @ rest) = [([], rest)]"
  by (induction cs) simp_all

lemma leaves_Lit: "s = cs @ rest \<Longrightarrow> leaves ic (Lit cs) s rest"
  by (simp add: leaves_def rmatch_Lit_append)

lemma leaves_Cls: "inClass ic k c \<Longrightarrow> leaves ic (Cls k) (c # rest) rest"
  by (simp add: leaves_def)

lemma many_self: "s \<in> set (many P s)"
  by (cases s) simp_all

lemma many_run: "list_all P m \<Longrightarrow> rest \<in> set (many P (m @ rest))"
  by (induction m) (simp_all add: many_self)

lemma leaves_Many1:
  assumes "s = m @ rest" "m \<noteq> []" "list_all (inClass ic k) m"
  shows "leaves ic (Many1 k) s rest"
proof (cases m)
  case Nil
  with assms(2) show ?thesis by simp
next
  case (Cons c m')
  with assms(3) have "inClass ic k c" "list_all (inClass ic k) m'" by simp_all
  then have "([], rest) \<in> set (rmatch ic (Many1 k) (c # m' @ rest))"
    by (simp add: many_run)
  then have "rest \<in> snd ` set (rmatch ic (Many1 k) (c # m' @ rest))"
    by (rule image_eqI[rotated]) simp
  with assms(1) Cons show ?thesis by (simp add: leaves_def)
qed

lemma leaves_Opt_skip: "leaves ic (Opt r) s s"
  by (simp add: leaves_def)

lemma leaves_Opt_take: "leaves ic r s rest \<Longrightarrow> leaves ic (Opt r) s rest"
  by (simp add: leaves_def image_Un)

lemma leaves_Cat:
  assumes "leaves ic a s mid" "leaves ic b mid rest"
  shows "leaves ic (Cat a b) s rest"
proof -
  from assms(1) obtain g1 where a: "(g1, mid) \<in> set (rmatch ic a s)"
    by (auto simp: leaves_def)
  from assms(2) obtain g2 where b: "(g2, rest) \<in> set (rmatch ic b mid)"
    by (auto simp: leaves_def)
  define f where "f = (\<lambda>(g1, s1). map (\<lambda>(g2, s2). (g1 @ g2, s2)) (rmatch ic b s1))"
  from b have "(g1 @ g2, rest) \<in> set (map (\<lambda>(g2, s2). (g1 @ g2, s2)) (rmatch ic b mid))"
    by (simp only: set_map) (rule image_eqI[where x = "(g2, rest)"], simp_all)
  then have "(g1 @ g2, rest) \<in> set (f (g1, mid))"
    by (simp add: f_def)
  moreover from a have "f (g1, mid) \<in> set (map f (rmatch ic a s))"
    by simp
  ultimately have "(g1 @ g2, rest) \<in> set (concat (map f (rmatch ic a s)))"
    unfolding set_concat by blast
  then have "(g1 @ g2, rest) \<in> set (rmatch ic (Cat a b) s)"
    by (simp add: f_def)
  then show ?thesis
    unfolding leaves_def by (rule image_eqI[rotated]) simp
qed

lemma leaves_Eoi: "leaves ic Eoi [] []"
  by (simp add: leaves_def)

lemma exec_here: "rmatch ic r s \<noteq> [] \<Longrightarrow> exec ic r s \<noteq> None"
  by (cases "rmatch ic r s"; cases s) simp_all

lemma exec_found: "rmatch ic r t \<noteq> [] \<Longrightarrow> exec ic r (pre @ t) \<noteq> None"
proof (induction pre)
  case Nil
  then show ?case by (simp add: exec_here)
next
  case (Cons c pre)
  then show ?case by (cases "rmatch ic r (c # pre @ t)") simp_all
qed

lemma test_leaves:
  assumes "leaves ic r t rest"
  shows "test ic r (pre @ t)"
proof -
  from assms have "rmatch ic r t \<noteq> []" by (auto simp: leaves_def)
  then show ?thesis unfolding test_def by (rule exec_found)
qed

lemma rmatch_Cat_first: "rmatch ic (Cat a b) s \<noteq> [] \<Longrightarrow> rmatch ic a s \<noteq> []"
  by (cases "rmatch ic a s") simp_all

lemma rmatch_Lit_prefix: "rmatch False (Lit cs) s \<noteq> [] \<Longrightarrow> take (length cs) s = cs"
proof (induction cs arbitrary: s)
  case Nil
  then show ?case by simp
next
  case (Cons x xs)
  then show ?case by (cases s) (simp_all add: canon_def split: if_splits)
qed

lemma inRange_upper: "isUpper c \<Longrightarrow> inRange CHR ''A'' CHR ''Z'' c"
  by (auto simp: isUpper_def inRange_def)

lemma inRange_lower: "isLower c \<Longrightarrow> inRange CHR ''A'' CHR ''Z'' (upperChar c)"
  by (auto simp: isLower_def inRange_def upperChar_def)

lemma inRange_digit: "isDigit c \<Longrightarrow> inRange CHR ''0'' CHR ''9'' c"
  by (auto simp: isDigit_def inRange_def)

lemma inClass_letter: "isUpper c \<or> isLower c \<Longrightarrow> inClass True (OneOf [upperAZ]) c"
  using inRange_upper[of c] inRange_lower[of c] by (auto simp: upperAZ_def)

lemma inClass_alnum:
  "isUpper c \<or> isLower c \<or> isDigit c \<Longrightarrow>
   inClass True (OneOf [upperAZ, Range CHR ''0'' CHR ''9'']) c"
  using inRange_upper[of c] inRange_lower[of c] inRange_digit[of c] by (auto simp: upperAZ_def)

lemma inClass_digit: "isDigit c \<Longrightarrow> inClass ic (OneOf [Digit]) c"
  by simp

lemma list_all_mono: "list_all P xs \<Longrightarrow> (\<And>x. P x \<Longrightarrow> Q x) \<Longrightarrow> list_all Q xs"
  by (induction xs) auto

lemma issueKey_leaves:
  assumes "isUpper l \<or> isLower l" "body \<noteq> []"
    "list_all (\<lambda>c. isUpper c \<or> isLower c \<or> isDigit c) body" "num \<noteq> []" "list_all isDigit num"
  shows "leaves True issueKeyRe (l # body @ ''-'' @ num @ rest) rest"
proof -
  have 1: "leaves True (Cls (OneOf [upperAZ])) (l # body @ ''-'' @ num @ rest)
      (body @ ''-'' @ num @ rest)"
    using assms(1) by (rule leaves_Cls[OF inClass_letter])
  have 2: "leaves True (Many1 (OneOf [upperAZ, Range CHR ''0'' CHR ''9'']))
      (body @ ''-'' @ num @ rest) (''-'' @ num @ rest)"
    by (rule leaves_Many1[OF refl assms(2)]) (rule list_all_mono[OF assms(3)], rule inClass_alnum)
  have 3: "leaves True (Lit ''-'') (''-'' @ num @ rest) (num @ rest)"
    by (rule leaves_Lit[OF refl])
  have 4: "leaves True (Many1 (OneOf [Digit])) (num @ rest) rest"
    by (rule leaves_Many1[OF refl assms(4)]) (rule list_all_mono[OF assms(5)], rule inClass_digit)
  show ?thesis
    unfolding issueKeyRe_def seq.simps
    by (rule leaves_Cat[OF 1] leaves_Cat[OF 2] leaves_Cat[OF 3] 4)+
qed

lemma directIssue_test:
  assumes "isUpper l \<or> isLower l" "body \<noteq> []"
    "list_all (\<lambda>c. isUpper c \<or> isLower c \<or> isDigit c) body" "num \<noteq> []" "list_all isDigit num"
  shows "test True directIssueRe (pre @ ''/browse/'' @ l # body @ ''-'' @ num @ post)"
proof -
  have "leaves True directIssueRe (''/browse/'' @ l # body @ ''-'' @ num @ post) post"
    unfolding directIssueRe_def
    by (rule leaves_Cat[OF leaves_Lit[OF refl] issueKey_leaves[OF assms]])
  then show ?thesis by (rule test_leaves)
qed

section \<open>Facts about the classifier\<close>

lemma tryBody_parsed:
  "newURL s = Inr u \<Longrightarrow>
   tryBody newURL s = Inr
     (if \<not> endsWith (hostname u) ''.atlassian.net'' then False
      else if test True directIssueRe (pathname u) then True
      else if test False boardRe (pathname u) \<or> test False backlogRe (pathname u)
             \<or> test False timelineRe (pathname u) \<or> startsWith (pathname u) ''/jira/''
        then sp_has (searchParams u) ''selectedIssue''
      else False)"
  by (simp add: tryBody_def)

lemma hasIdentifiableIssue_Some:
  "s \<noteq> [] \<Longrightarrow> tryBody newURL s = Inr b \<Longrightarrow> hasIdentifiableIssue newURL (Some s) = Inr b"
  by (simp add: hasIdentifiableIssue_def)

lemma parseTable_single: "parseTable [(s, u)] s = Inr u"
  by (simp add: parseTable_def)

lemma sp_has_iff: "sp_has ps n = (\<exists>v. (n, v) \<in> set ps)"
  by (force simp: sp_has_def)

lemma startsWith_append: "startsWith (p @ t) p"
  by (simp add: startsWith_def)

lemma startsWith_shorter:
  assumes "startsWith s (p @ q)"
  shows "startsWith s p"
proof -
  from assms have "take (length p + length q) s = p @ q"
    by (simp add: startsWith_def)
  then have "take (length p) (take (length p + length q) s) = take (length p) (p @ q)"
    by simp
  then show ?thesis
    by (simp add: startsWith_def min_def)
qed

lemma jira_prefix_result:
  assumes "s \<noteq> []" "newURL s = Inr u" "endsWith (hostname u) ''.atlassian.net''"
    "\<not> test True directIssueRe (pathname u)" "startsWith (pathname u) ''/jira/''"
  shows "hasIdentifiableIssue newURL (Some s) = Inr (sp_has (searchParams u) ''selectedIssue'')"
proof -
  from assms(2-5) have "tryBody newURL s = Inr (sp_has (searchParams u) ''selectedIssue'')"
    by (simp add: tryBody_parsed)
  with assms(1) show ?thesis by (rule hasIdentifiableIssue_Some)
qed

lemma fromStart_jira:
  assumes "testFromStart False (Cat boardPrefixRe r) p"
  shows "startsWith p ''/jira/''"
proof -
  from assms have "rmatch False boardPrefixRe p \<noteq> []"
    unfolding testFromStart_def by (rule rmatch_Cat_first)
  then have "rmatch False (Lit ''/jira/software/'') p \<noteq> []"
    unfolding boardPrefixRe_def seq.simps by (rule rmatch_Cat_first)
  then have "take (length ''/jira/software/'') p = ''/jira/software/''"
    by (rule rmatch_Lit_prefix)
  then have "startsWith p (''/jira/'' @ ''software/'')"
    by (simp add: startsWith_def)
  then show ?thesis by (rule startsWith_shorter)
qed

lemma example_key_test: "test True directIssueRe ''/browse/PROJ-123''"
proof -
  have "isUpper CHR ''P''" "list_all (\<lambda>c. isUpper c \<or> isLower c \<or> isDigit c) ''ROJ''"
    "list_all isDigit ''123''"
    by (simp_all add: isUpper_def isDigit_def)
  then have "test True directIssueRe ([] @ ''/browse/'' @ CHR ''P'' # ''ROJ'' @ ''-'' @ ''123'' @ [])"
    by (intro directIssue_test) simp_all
  then show ?thesis by simp
qed

text \<open>
  Rule 4 recognises the board, backlog and timeline paths whose project is one path
  segment and whose board number is a run of digits.
\<close>

lemma inClass_notslash: "c \<noteq> CHR ''/'' \<Longrightarrow> inClass False (NoneOf [Chr CHR ''/'']) c"
  by (simp add: canon_def)

lemma boardPrefix_leaves:
  assumes "proj \<noteq> []" "CHR ''/'' \<notin> set proj" "bid \<noteq> []" "list_all isDigit bid"
  shows "leaves False boardPrefixRe (''/jira/software/'' @ proj @ ''/boards/'' @ bid @ rest) rest"
proof -
  have p: "list_all (inClass False (NoneOf [Chr CHR ''/''])) proj"
    using assms(2) by (induction proj) (auto simp: canon_def)
  have 1: "leaves False (Lit ''/jira/software/'') (''/jira/software/'' @ proj @ ''/boards/'' @ bid @ rest)
      (proj @ ''/boards/'' @ bid @ rest)"
    by (rule leaves_Lit[OF refl])
  have 2: "leaves False (Many1 (NoneOf [Chr CHR ''/''])) (proj @ ''/boards/'' @ bid @ rest)
      (''/boards/'' @ bid @ rest)"
    by (rule leaves_Many1[OF refl assms(1) p])
  have 3: "leaves False (Lit ''/boards/'') (''/boards/'' @ bid @ rest) (bid @ rest)"
    by (rule leaves_Lit[OF refl])
  have 4: "leaves False (Many1 (OneOf [Digit])) (bid @ rest) rest"
    by (rule leaves_Many1[OF refl assms(3)]) (rule list_all_mono[OF assms(4)], rule inClass_digit)
  show ?thesis
    unfolding boardPrefixRe_def seq.simps
    by (rule leaves_Cat[OF 1] leaves_Cat[OF 2] leaves_Cat[OF 3] 4)+
qed

lemma slash_leaves: "slash = [] \<or> slash = ''/'' \<Longrightarrow> leaves False (Opt (Lit ''/'')) slash []"
proof (cases "slash = []")
  case True
  then show ?thesis by (simp add: leaves_Opt_skip)
next
  case False
  moreover assume "slash = [] \<or> slash = ''/''"
  ultimately have "slash = ''/'' @ []" by simp
  then show ?thesis by (intro leaves_Opt_take leaves_Lit)
qed

lemma board_view_matches:
  assumes "proj \<noteq> []" "CHR ''/'' \<notin> set proj" "bid \<noteq> []" "list_all isDigit bid"
    "slash = [] \<or> slash = ''/''"
  shows "test False boardRe (''/jira/software/'' @ proj @ ''/boards/'' @ bid @ slash)"
proof -
  have "leaves False boardRe (''/jira/software/'' @ proj @ ''/boards/'' @ bid @ slash) []"
    unfolding boardRe_def seq.simps
    by (rule leaves_Cat[OF boardPrefix_leaves[OF assms(1-4)]
          leaves_Cat[OF slash_leaves[OF assms(5)] leaves_Eoi]])
  from test_leaves[OF this, of "[]"] show ?thesis by simp
qed

lemma backlog_view_matches:
  assumes "proj \<noteq> []" "CHR ''/'' \<notin> set proj" "bid \<noteq> []" "list_all isDigit bid"
  shows "test False backlogRe (''/jira/software/'' @ proj @ ''/boards/'' @ bid @ ''/backlog'' @ post)"
proof -
  have "leaves False backlogRe
      (''/jira/software/'' @ proj @ ''/boards/'' @ bid @ ''/backlog'' @ post) post"
    unfolding backlogRe_def seq.simps
    by (rule leaves_Cat[OF boardPrefix_leaves[OF assms]
          leaves_Cat[OF leaves_Lit[OF refl] leaves_Opt_skip]])
  from test_leaves[OF this, of "[]"] show ?thesis by simp
qed

lemma timeline_view_matches:
  assumes "proj \<noteq> []" "CHR ''/'' \<notin> set proj" "bid \<noteq> []" "list_all isDigit bid"
  shows "test False timelineRe (''/jira/software/'' @ proj @ ''/boards/'' @ bid @ ''/timeline'' @ post)"
proof -
  have "leaves False timelineRe
      (''/jira/software/'' @ proj @ ''/boards/'' @ bid @ ''/timeline'' @ post) post"
    unfolding timelineRe_def seq.simps
    by (rule leaves_Cat[OF boardPrefix_leaves[OF assms]
          leaves_Cat[OF leaves_Lit[OF refl] leaves_Opt_skip]])
  from test_leaves[OF this, of "[]"] show ?thesis by simp
qed

section \<open>The claims about hasIdentifiableIssue\<close>

text \<open>
  C1.  On a host that ends in \<open>.atlassian.net\<close>, for a path of a board view
  \<open>/jira/software/<proj>/boards/<id>\<close>, of a backlog view (the same and \<open>/backlog\<close>) or of a
  timeline view (the same and \<open>/timeline\<close>), with or without a slash at the end, that the
  \<open>/browse/<KEY>\<close> rule does not match, \<open>hasIdentifiableIssue\<close> returns true if and only if
  the query has a parameter \<open>selectedIssue\<close>, whatever its value.
\<close>

theorem board_views_follow_selectedIssue:
  assumes "s \<noteq> []" "newURL s = Inr u" "endsWith (hostname u) ''.atlassian.net''"
    "\<not> test True directIssueRe (pathname u)"
    "pathname u = ''/jira/software/'' @ proj @ ''/boards/'' @ bid @ view @ slash"
    "view = [] \<or> view = ''/backlog'' \<or> view = ''/timeline''" "slash = [] \<or> slash = ''/''"
  shows "hasIdentifiableIssue newURL (Some s) =
           Inr (\<exists>v. (''selectedIssue'', v) \<in> set (searchParams u))"
proof -
  have "startsWith (''/jira/'' @ ''software/'' @ proj @ ''/boards/'' @ bid @ view @ slash) ''/jira/''"
    by (rule startsWith_append)
  then have "startsWith (pathname u) ''/jira/''"
    by (simp add: assms(5))
  from jira_prefix_result[where newURL = newURL and s = s and u = u, OF assms(1-4) this]
  show ?thesis
    by (simp only: sp_has_iff)
qed

theorem board_views_follow_selectedIssue_witness:
  "boardUrl \<noteq> [] \<and> parseTable [(boardUrl, boardObj)] boardUrl = Inr boardObj
   \<and> endsWith (hostname boardObj) ''.atlassian.net''
   \<and> \<not> test True directIssueRe (pathname boardObj)
   \<and> pathname boardObj =
       ''/jira/software/'' @ ''c/projects/PROJ'' @ ''/boards/'' @ ''1'' @ ''/backlog'' @ ''/''
   \<and> hasIdentifiableIssue (parseTable [(boardUrl, boardObj)]) (Some boardUrl) = Inr True"
proof -
  have 1: "boardUrl \<noteq> []"
    by (simp add: boardUrl_def)
  have 2: "parseTable [(boardUrl, boardObj)] boardUrl = Inr boardObj"
    by (rule parseTable_single)
  have 3: "endsWith (hostname boardObj) ''.atlassian.net''"
    by (simp add: endsWith_def boardObj_def)
  have 4: "\<not> test True directIssueRe (pathname boardObj)"
    by code_simp
  have 5: "pathname boardObj =
      ''/jira/software/'' @ ''c/projects/PROJ'' @ ''/boards/'' @ ''1'' @ ''/backlog'' @ ''/''"
    by (simp add: boardObj_def)
  have 6: "\<exists>v. (''selectedIssue'', v) \<in> set (searchParams boardObj)"
    by (simp add: boardObj_def)
  from board_views_follow_selectedIssue[where newURL = "parseTable [(boardUrl, boardObj)]"
      and s = boardUrl and u = boardObj, OF 1 2 3 4 5] 6
  have "hasIdentifiableIssue (parseTable [(boardUrl, boardObj)]) (Some boardUrl) = Inr True"
    by simp
  with 1 2 3 4 5 show ?thesis by simp
qed

text \<open>
  C2.  For a string that parses as a URL whose host name does not end in
  \<open>.atlassian.net\<close>, \<open>hasIdentifiableIssue\<close> returns false, whatever the path, the query and
  the fragment.
\<close>

theorem foreign_host_rejected:
  assumes "newURL s = Inr u" "\<not> endsWith (hostname u) ''.atlassian.net''"
  shows "hasIdentifiableIssue newURL (Some s) = Inr False"
  using assms by (simp add: hasIdentifiableIssue_def tryBody_def)

theorem foreign_host_rejected_witness:
  "parseTable [(foreignUrl, foreignObj)] foreignUrl = Inr foreignObj
   \<and> \<not> endsWith (hostname foreignObj) ''.atlassian.net''
   \<and> hasIdentifiableIssue (parseTable [(foreignUrl, foreignObj)]) (Some foreignUrl) = Inr False"
proof -
  have p: "parseTable [(foreignUrl, foreignObj)] foreignUrl = Inr foreignObj"
    by (rule parseTable_single)
  have h: "\<not> endsWith (hostname foreignObj) ''.atlassian.net''"
    by (simp add: endsWith_def foreignObj_def)
  from foreign_host_rejected[where newURL = "parseTable [(foreignUrl, foreignObj)]"
      and s = foreignUrl and u = foreignObj, OF p h] h p
  show ?thesis by simp
qed

text \<open>
  C3, as amended.  On a host that ends in \<open>.atlassian.net\<close>, for every path that holds
  \<open>/browse/<KEY>\<close>, the key being a letter, one or more letters and digits, a hyphen and
  one or more digits, the letters in either case, \<open>hasIdentifiableIssue\<close> returns true,
  whatever the query and the fragment.
\<close>

theorem direct_issue_accepted:
  assumes "s \<noteq> []" "newURL s = Inr u" "endsWith (hostname u) ''.atlassian.net''"
    "pathname u = pre @ ''/browse/'' @ l # body @ ''-'' @ num @ post"
    "isUpper l \<or> isLower l" "body \<noteq> []"
    "list_all (\<lambda>c. isUpper c \<or> isLower c \<or> isDigit c) body" "num \<noteq> []" "list_all isDigit num"
  shows "hasIdentifiableIssue newURL (Some s) = Inr True"
proof -
  have "test True directIssueRe (pathname u)"
    unfolding assms(4) by (rule directIssue_test[OF assms(5-9)])
  with assms(2,3) have "tryBody newURL s = Inr True"
    by (simp add: tryBody_parsed)
  with assms(1) show ?thesis by (rule hasIdentifiableIssue_Some)
qed

theorem direct_issue_accepted_witness:
  "issueUrl \<noteq> [] \<and> parseTable [(issueUrl, issueObj)] issueUrl = Inr issueObj
   \<and> endsWith (hostname issueObj) ''.atlassian.net''
   \<and> pathname issueObj = [] @ ''/browse/'' @ CHR ''P'' # ''ROJ'' @ ''-'' @ ''123'' @ []
   \<and> isUpper CHR ''P'' \<and> list_all (\<lambda>c. isUpper c \<or> isLower c \<or> isDigit c) ''ROJ''
   \<and> list_all isDigit ''123''
   \<and> hasIdentifiableIssue (parseTable [(issueUrl, issueObj)]) (Some issueUrl) = Inr True"
proof -
  have 1: "issueUrl \<noteq> []"
    by (simp add: issueUrl_def)
  have 2: "parseTable [(issueUrl, issueObj)] issueUrl = Inr issueObj"
    by (rule parseTable_single)
  have 3: "endsWith (hostname issueObj) ''.atlassian.net''"
    by (simp add: endsWith_def issueObj_def)
  have 4: "pathname issueObj = [] @ ''/browse/'' @ CHR ''P'' # ''ROJ'' @ ''-'' @ ''123'' @ []"
    by (simp add: issueObj_def)
  have 5: "isUpper CHR ''P'' \<or> isLower CHR ''P''"
    by (simp add: isUpper_def)
  have 6: "''ROJ'' \<noteq> []" "''123'' \<noteq> []"
    by simp_all
  have 7: "list_all (\<lambda>c. isUpper c \<or> isLower c \<or> isDigit c) ''ROJ''"
    by (simp add: isUpper_def)
  have 8: "list_all isDigit ''123''"
    by (simp add: isDigit_def)
  from direct_issue_accepted[where newURL = "parseTable [(issueUrl, issueObj)]" and s = issueUrl
      and u = issueObj, OF 1 2 3 4 5 6(1) 7 6(2) 8]
  have "hasIdentifiableIssue (parseTable [(issueUrl, issueObj)]) (Some issueUrl) = Inr True" .
  with 1 2 3 4 7 8 show ?thesis by (simp add: isUpper_def)
qed

text \<open>
  C3 as stated fails on a host that is not Atlassian's: the path holds \<open>/browse/PROJ-123\<close>
  and the function returns false.
\<close>

theorem direct_issue_foreign_host:
  "parseTable [(foreignUrl, foreignObj)] foreignUrl = Inr foreignObj
   \<and> test True directIssueRe (pathname foreignObj)
   \<and> hasIdentifiableIssue (parseTable [(foreignUrl, foreignObj)]) (Some foreignUrl) = Inr False"
proof -
  have "test True directIssueRe (pathname foreignObj)"
    using example_key_test by (simp add: foreignObj_def)
  moreover have "hasIdentifiableIssue (parseTable [(foreignUrl, foreignObj)]) (Some foreignUrl)
      = Inr False"
    by (simp add: hasIdentifiableIssue_def tryBody_def parseTable_def endsWith_def foreignObj_def
        foreignUrl_def)
  ultimately show ?thesis by (simp add: parseTable_single)
qed

text \<open>
  C4.  \<open>hasIdentifiableIssue\<close> returns false for \<open>null\<close>, for the empty string and for
  every string that the URL parser rejects; for every input it returns a boolean and
  throws nothing.
\<close>

theorem malformed_urls_fail_closed:
  "hasIdentifiableIssue newURL None = Inr False
   \<and> hasIdentifiableIssue newURL (Some []) = Inr False
   \<and> (newURL s = Inl e \<longrightarrow> hasIdentifiableIssue newURL (Some s) = Inr False)
   \<and> (\<exists>b. hasIdentifiableIssue newURL v = Inr b)"
proof -
  have "\<exists>b. hasIdentifiableIssue newURL v = Inr b"
    by (cases v) (auto simp: hasIdentifiableIssue_def split: sum.splits)
  then show ?thesis
    by (simp add: hasIdentifiableIssue_def tryBody_def)
qed

theorem malformed_urls_fail_closed_witness:
  "parseTable [] ''not-a-url'' = Inl TypeError
   \<and> hasIdentifiableIssue (parseTable []) None = Inr False
   \<and> hasIdentifiableIssue (parseTable []) (Some []) = Inr False
   \<and> hasIdentifiableIssue (parseTable []) (Some ''not-a-url'') = Inr False"
  using malformed_urls_fail_closed[of "parseTable []" "''not-a-url''" TypeError None]
  by (simp add: parseTable_def)

text \<open>
  C7, as amended.  Rule 5 covers the URLs that rule 4 accepts when the board, backlog or
  timeline pattern matches from the first character of the path: the path then begins
  with \<open>/jira/\<close>, and with a parameter \<open>selectedIssue\<close> the condition of rule 5 holds.
  And for every path that begins with \<open>/jira/\<close>, settings and admin pages among them, on
  a URL that rules 1 and 2 do not reject and that has a parameter \<open>selectedIssue\<close>,
  \<open>hasIdentifiableIssue\<close> returns true.
\<close>

theorem rule5_covers_rule4_from_path_start:
  assumes "s \<noteq> []" "newURL s = Inr u" "endsWith (hostname u) ''.atlassian.net''"
    "sp_has (searchParams u) ''selectedIssue''"
  shows "((testFromStart False boardRe (pathname u) \<or> testFromStart False backlogRe (pathname u)
            \<or> testFromStart False timelineRe (pathname u))
          \<longrightarrow> startsWith (pathname u) ''/jira/'' \<and> sp_has (searchParams u) ''selectedIssue'')
       \<and> (startsWith (pathname u) ''/jira/'' \<longrightarrow> hasIdentifiableIssue newURL (Some s) = Inr True)"
proof -
  have a: "startsWith (pathname u) ''/jira/''"
    if "testFromStart False boardRe (pathname u) \<or> testFromStart False backlogRe (pathname u)
        \<or> testFromStart False timelineRe (pathname u)"
    using that unfolding boardRe_def backlogRe_def timelineRe_def seq.simps
    by (auto dest: fromStart_jira)
  have b: "hasIdentifiableIssue newURL (Some s) = Inr True" if "startsWith (pathname u) ''/jira/''"
  proof -
    from assms(2-4) that have "tryBody newURL s = Inr True"
      by (simp add: tryBody_parsed)
    with assms(1) show ?thesis by (rule hasIdentifiableIssue_Some)
  qed
  from a b assms(4) show ?thesis by blast
qed

theorem rule5_covers_rule4_from_path_start_witness:
  "settingsUrl \<noteq> [] \<and> parseTable [(settingsUrl, settingsObj)] settingsUrl = Inr settingsObj
   \<and> endsWith (hostname settingsObj) ''.atlassian.net''
   \<and> sp_has (searchParams settingsObj) ''selectedIssue''
   \<and> startsWith (pathname settingsObj) ''/jira/''
   \<and> hasIdentifiableIssue (parseTable [(settingsUrl, settingsObj)]) (Some settingsUrl) = Inr True
   \<and> projectBoardUrl \<noteq> []
   \<and> parseTable [(projectBoardUrl, projectBoardObj)] projectBoardUrl = Inr projectBoardObj
   \<and> endsWith (hostname projectBoardObj) ''.atlassian.net''
   \<and> sp_has (searchParams projectBoardObj) ''selectedIssue''
   \<and> testFromStart False boardRe (pathname projectBoardObj)
   \<and> startsWith (pathname projectBoardObj) ''/jira/''
   \<and> hasIdentifiableIssue (parseTable [(projectBoardUrl, projectBoardObj)]) (Some projectBoardUrl)
       = Inr True"
proof -
  have 1: "settingsUrl \<noteq> []"
    by (simp add: settingsUrl_def)
  have 2: "parseTable [(settingsUrl, settingsObj)] settingsUrl = Inr settingsObj"
    by (rule parseTable_single)
  have 3: "endsWith (hostname settingsObj) ''.atlassian.net''"
    by (simp add: endsWith_def settingsObj_def)
  have 4: "sp_has (searchParams settingsObj) ''selectedIssue''"
    by (simp add: sp_has_def settingsObj_def)
  have 5: "startsWith (pathname settingsObj) ''/jira/''"
    by (simp add: startsWith_def settingsObj_def)
  from rule5_covers_rule4_from_path_start[where newURL = "parseTable [(settingsUrl, settingsObj)]"
      and s = settingsUrl and u = settingsObj, OF 1 2 3 4] 5
  have 6: "hasIdentifiableIssue (parseTable [(settingsUrl, settingsObj)]) (Some settingsUrl)
      = Inr True"
    by simp
  have b1: "projectBoardUrl \<noteq> []"
    by (simp add: projectBoardUrl_def)
  have b2: "parseTable [(projectBoardUrl, projectBoardObj)] projectBoardUrl = Inr projectBoardObj"
    by (rule parseTable_single)
  have b3: "endsWith (hostname projectBoardObj) ''.atlassian.net''"
    by (simp add: endsWith_def projectBoardObj_def)
  have b4: "sp_has (searchParams projectBoardObj) ''selectedIssue''"
    by (simp add: sp_has_def projectBoardObj_def)
  have b5: "testFromStart False boardRe (pathname projectBoardObj)"
    by code_simp
  from rule5_covers_rule4_from_path_start[where
      newURL = "parseTable [(projectBoardUrl, projectBoardObj)]"
      and s = projectBoardUrl and u = projectBoardObj, OF b1 b2 b3 b4] b5
  have b6: "startsWith (pathname projectBoardObj) ''/jira/''"
    and b7: "hasIdentifiableIssue (parseTable [(projectBoardUrl, projectBoardObj)])
      (Some projectBoardUrl) = Inr True"
    by simp_all
  from 1 2 3 4 5 6 b1 b2 b3 b4 b5 b6 b7 show ?thesis by simp
qed

text \<open>
  C7 as stated fails where the pattern of rule 4 matches further on in the path: rule 4
  accepts the URL, and its path does not begin with \<open>/jira/\<close>.
\<close>

theorem rule4_accepts_outside_jira_prefix:
  "parseTable [(nestedUrl, nestedObj)] nestedUrl = Inr nestedObj
   \<and> endsWith (hostname nestedObj) ''.atlassian.net''
   \<and> \<not> test True directIssueRe (pathname nestedObj)
   \<and> test False boardRe (pathname nestedObj)
   \<and> sp_has (searchParams nestedObj) ''selectedIssue''
   \<and> hasIdentifiableIssue (parseTable [(nestedUrl, nestedObj)]) (Some nestedUrl) = Inr True
   \<and> \<not> startsWith (pathname nestedObj) ''/jira/''"
proof -
  have 2: "parseTable [(nestedUrl, nestedObj)] nestedUrl = Inr nestedObj"
    by (rule parseTable_single)
  have 3: "endsWith (hostname nestedObj) ''.atlassian.net''"
    by (simp add: endsWith_def nestedObj_def)
  have 4: "\<not> test True directIssueRe (pathname nestedObj)"
    by code_simp
  have 5: "test False boardRe (pathname nestedObj)"
    by code_simp
  have 6: "sp_has (searchParams nestedObj) ''selectedIssue''"
    by (simp add: sp_has_def nestedObj_def)
  have 7: "\<not> startsWith (pathname nestedObj) ''/jira/''"
    by (simp add: startsWith_def nestedObj_def)
  have 8: "nestedUrl \<noteq> []"
    by (simp add: nestedUrl_def)
  from 2 3 4 5 6 have "tryBody (parseTable [(nestedUrl, nestedObj)]) nestedUrl = Inr True"
    by (simp add: tryBody_def)
  with 8 have "hasIdentifiableIssue (parseTable [(nestedUrl, nestedObj)]) (Some nestedUrl)
      = Inr True"
    by (rule hasIdentifiableIssue_Some)
  with 2 3 4 5 6 7 show ?thesis by simp
qed

section \<open>Facts about the content script\<close>

lemma escapeHtml_no_angle:
  "CHR ''<'' \<notin> set (escapeHtml t) \<and> CHR ''>'' \<notin> set (escapeHtml t)"
  by (induction t) (auto simp: escapeHtml_def escapeChar_def)

lemma url_keyFromUrl: "url (keyFromUrl p d) = url d"
  by (simp add: keyFromUrl_def split: option.splits list.splits)

lemma url_keyFromSelectedIssue: "url (keyFromSelectedIssue p d) = url d"
  by (simp add: keyFromSelectedIssue_def split: option.splits)

lemma url_keyFromBreadcrumb: "url (keyFromBreadcrumb p d) = url d"
  by (simp add: keyFromBreadcrumb_def split: option.splits)

lemma url_keyLoop: "url (keyLoop p sels d) = url d"
  by (induction sels) (simp_all split: option.splits list.splits)

lemma url_keyFromSelectors: "url (keyFromSelectors p d) = url d"
  by (simp add: keyFromSelectors_def url_keyLoop)

lemma url_summaryLoop: "url (summaryLoop p sels d) = url d"
  by (induction sels) (simp_all split: option.splits)

lemma url_fromTitle: "url (fromTitle p d) = url d"
  by (simp add: fromTitle_def split: option.splits list.splits)

lemma key_canonicalUrl: "key (canonicalUrl p d) = key d"
  by (simp add: canonicalUrl_def split: option.splits)

lemma url_canonicalUrl_key:
  "key d = Some k \<Longrightarrow> k \<noteq> [] \<Longrightarrow> url (canonicalUrl p d) = locationOrigin p @ ''/browse/'' @ k"
  by (simp add: canonicalUrl_def)

lemma url_canonicalUrl_none: "key d = None \<Longrightarrow> url (canonicalUrl p d) = url d"
  by (simp add: canonicalUrl_def)

section \<open>The claims about generateFormats\<close>

text \<open>
  C5, as amended.  For issue data with a key that is neither \<open>null\<close> nor empty,
  \<open>generateFormats\<close> returns four strings: \<open>plainText\<close> is the key, \<open>-\<close> between spaces
  and the summary when the summary is neither \<open>null\<close> nor empty, and the key alone
  otherwise; \<open>markdown\<close> is a Markdown link with that title as its label and the URL as its
  target; \<open>markdownShort\<close> is a Markdown link with the key as its label; \<open>html\<close> is an HTML
  anchor whose text is the title, escaped.  For a key that is \<open>null\<close> or empty it returns
  \<open>null\<close>.
\<close>

theorem generateFormats_four_strings:
  \<open>(\<forall>k. key d = Some k \<and> k \<noteq> [] \<longrightarrow>
      (\<exists>f. generateFormats d = Some f
         \<and> (\<forall>t. summary d = Some t \<and> t \<noteq> [] \<longrightarrow> plainText f = k @ '' - '' @ t)
         \<and> (summary d = None \<or> summary d = Some [] \<longrightarrow> plainText f = k)
         \<and> markdown f = ''['' @ plainText f @ '']('' @ url d @ '')''
         \<and> markdownShort f = ''['' @ k @ '']('' @ url d @ '')''
         \<and> html f = ''<a href="'' @ url d @ ''">'' @ escapeHtml (plainText f) @ ''</a>''))
   \<and> (key d = None \<or> key d = Some [] \<longrightarrow> generateFormats d = None)\<close>
  by (auto simp: generateFormats_def Let_def split: option.splits)

theorem generateFormats_four_strings_witness:
  \<open>key exampleIssue = Some ''PROJ-123'' \<and> summary exampleIssue = Some ''Fix bug''
   \<and> url exampleIssue = ''https://x.atlassian.net/browse/PROJ-123''
   \<and> (\<exists>f. generateFormats exampleIssue = Some f
        \<and> plainText f = ''PROJ-123 - Fix bug''
        \<and> markdown f = ''[PROJ-123 - Fix bug](https://x.atlassian.net/browse/PROJ-123)''
        \<and> markdownShort f = ''[PROJ-123](https://x.atlassian.net/browse/PROJ-123)''
        \<and> html f = ''<a href="https://x.atlassian.net/browse/PROJ-123">PROJ-123 - Fix bug</a>'')
   \<and> key bareIssue = Some ''PROJ-123'' \<and> summary bareIssue = None
   \<and> (\<exists>f. generateFormats bareIssue = Some f \<and> plainText f = ''PROJ-123'')
   \<and> key noKeyIssue = None \<and> generateFormats noKeyIssue = None\<close>
proof -
  have e: "escapeHtml ''PROJ-123 - Fix bug'' = ''PROJ-123 - Fix bug''"
    by (simp add: escapeHtml_def escapeChar_def)
  from generateFormats_four_strings[of exampleIssue]
  obtain f where f: "generateFormats exampleIssue = Some f"
    "plainText f = ''PROJ-123 - Fix bug''"
    "markdown f = ''['' @ plainText f @ '']('' @ url exampleIssue @ '')''"
    "markdownShort f = ''['' @ ''PROJ-123'' @ '']('' @ url exampleIssue @ '')''"
    \<open>html f = ''<a href="'' @ url exampleIssue @ ''">'' @ escapeHtml (plainText f) @ ''</a>''\<close>
    by (auto simp: exampleIssue_def)
  from generateFormats_four_strings[of bareIssue]
  obtain g where g: "generateFormats bareIssue = Some g" "plainText g = ''PROJ-123''"
    by (auto simp: bareIssue_def)
  from generateFormats_four_strings[of noKeyIssue]
  have n: "generateFormats noKeyIssue = None"
    by (simp add: noKeyIssue_def)
  have 1: \<open>\<exists>f. generateFormats exampleIssue = Some f
        \<and> plainText f = ''PROJ-123 - Fix bug''
        \<and> markdown f = ''[PROJ-123 - Fix bug](https://x.atlassian.net/browse/PROJ-123)''
        \<and> markdownShort f = ''[PROJ-123](https://x.atlassian.net/browse/PROJ-123)''
        \<and> html f = ''<a href="https://x.atlassian.net/browse/PROJ-123">PROJ-123 - Fix bug</a>''\<close>
    using f e by (simp add: exampleIssue_def)
  have 2: "\<exists>f. generateFormats bareIssue = Some f \<and> plainText f = ''PROJ-123''"
    using g by simp
  from 1 2 n show ?thesis
    by (simp add: exampleIssue_def bareIssue_def noKeyIssue_def)
qed

text \<open>
  C5 as stated fails on empty strings: an empty summary is not \<open>null\<close> and \<open>plainText\<close> is
  the key alone; an empty key is not \<open>null\<close> and the result is \<open>null\<close>.
\<close>

theorem generateFormats_empty_strings:
  "key emptySummaryIssue = Some ''PROJ-123'' \<and> summary emptySummaryIssue = Some []
   \<and> map_option plainText (generateFormats emptySummaryIssue) = Some ''PROJ-123''
   \<and> ''PROJ-123'' \<noteq> ''PROJ-123'' @ '' - '' @ []
   \<and> key emptyKeyIssue = Some [] \<and> generateFormats emptyKeyIssue = None"
  by (simp add: generateFormats_def Let_def emptySummaryIssue_def emptyKeyIssue_def)

text \<open>
  C10.  In every result of \<open>generateFormats\<close> that is not \<open>null\<close> the URL stands as it is
  in the \<open>href\<close> attribute of \<open>html\<close> and in the targets of \<open>markdown\<close> and \<open>markdownShort\<close>,
  whatever characters it holds; only the text of the anchor is escaped, and the escaped
  text holds neither \<open><\<close> nor \<open>>\<close>.
\<close>

theorem url_copied_verbatim:
  assumes "generateFormats d = Some f"
  shows \<open>markdown f = ''['' @ plainText f @ '']('' @ url d @ '')''
     \<and> (\<exists>k. key d = Some k \<and> markdownShort f = ''['' @ k @ '']('' @ url d @ '')'')
     \<and> html f = ''<a href="'' @ url d @ ''">'' @ escapeHtml (plainText f) @ ''</a>''
     \<and> CHR ''<'' \<notin> set (escapeHtml (plainText f))
     \<and> CHR ''>'' \<notin> set (escapeHtml (plainText f))\<close>
proof -
  from assms have
    \<open>markdown f = ''['' @ plainText f @ '']('' @ url d @ '')''
     \<and> (\<exists>k. key d = Some k \<and> markdownShort f = ''['' @ k @ '']('' @ url d @ '')'')
     \<and> html f = ''<a href="'' @ url d @ ''">'' @ escapeHtml (plainText f) @ ''</a>''\<close>
    by (auto simp: generateFormats_def Let_def split: option.splits if_splits)
  with escapeHtml_no_angle[of "plainText f"] show ?thesis by simp
qed

theorem url_copied_verbatim_witness:
  \<open>url quotedIssue = ''https://x.atlassian.net/browse/K-1?q="<&>"''
   \<and> (\<exists>f. generateFormats quotedIssue = Some f
        \<and> markdown f = ''[K-1 - a<b & c](https://x.atlassian.net/browse/K-1?q="<&>")''
        \<and> markdownShort f = ''[K-1](https://x.atlassian.net/browse/K-1?q="<&>")''
        \<and> html f =
            ''<a href="https://x.atlassian.net/browse/K-1?q="<&>"">K-1 - a&lt;b &amp; c</a>'')\<close>
proof -
  obtain f where f: "generateFormats quotedIssue = Some f" "plainText f = ''K-1 - a<b & c''"
    by (simp add: generateFormats_def Let_def quotedIssue_def)
  have e: "escapeHtml ''K-1 - a<b & c'' = ''K-1 - a&lt;b &amp; c''"
    by (simp add: escapeHtml_def escapeChar_def)
  have k: "key quotedIssue = Some ''K-1''"
    by (simp add: quotedIssue_def)
  from url_copied_verbatim[OF f(1)] f(2) e k
  have \<open>markdown f = ''[K-1 - a<b & c](https://x.atlassian.net/browse/K-1?q="<&>")''
        \<and> markdownShort f = ''[K-1](https://x.atlassian.net/browse/K-1?q="<&>")''
        \<and> html f =
            ''<a href="https://x.atlassian.net/browse/K-1?q="<&>"">K-1 - a&lt;b &amp; c</a>''\<close>
    by (simp add: quotedIssue_def)
  with f(1) show ?thesis
    by (simp add: quotedIssue_def)
qed

section \<open>The claim about copyHtmlToClipboard\<close>

text \<open>
  C8.  When the write of the HTML and the plain text together fails, whatever the error,
  \<open>copyHtmlToClipboard\<close> does what a plain text write does: the error of the first write
  goes no further, and the text it writes is the HTML markup, not the \<open>plainText\<close> format.
\<close>

theorem copyHtml_falls_back_to_writeText:
  assumes "clipboardWrite markup plain c = Inl e"
  shows "copyHtmlToClipboard clipboardWrite clipboardWriteText markup plain c
           = clipboardWriteText markup c"
  using assms by (simp add: copyHtmlToClipboard_def)

theorem copyHtml_falls_back_to_writeText_witness:
  \<open>unsupportedWrite ''<a href="u">PROJ-123 - Fix bug</a>'' ''PROJ-123 - Fix bug'' emptyClipboard
      = Inl ReferenceError
   \<and> copyHtmlToClipboard unsupportedWrite plainWrite
        ''<a href="u">PROJ-123 - Fix bug</a>'' ''PROJ-123 - Fix bug'' emptyClipboard
      = Inr \<lparr>textHtml = None, textPlain = Some ''<a href="u">PROJ-123 - Fix bug</a>''\<rparr>\<close>
proof -
  have u: \<open>unsupportedWrite ''<a href="u">PROJ-123 - Fix bug</a>'' ''PROJ-123 - Fix bug''
      emptyClipboard = Inl ReferenceError\<close>
    by (simp add: unsupportedWrite_def)
  from copyHtml_falls_back_to_writeText[where clipboardWrite = unsupportedWrite
      and clipboardWriteText = plainWrite, OF u] u
  show ?thesis by (simp add: plainWrite_def)
qed

section \<open>What a match tells about the input\<close>

lemma rmatch_Lit_elim:
  "(g, rest) \<in> set (rmatch ic (Lit cs) s) \<Longrightarrow>
   g = [] \<and> (\<exists>m. s = m @ rest \<and> map (canon ic) m = map (canon ic) cs)"
proof (induction cs arbitrary: s)
  case Nil
  then show ?case by simp
next
  case (Cons x xs)
  show ?case
  proof (cases s)
    case Nil
    with Cons.prems show ?thesis by simp
  next
    case (Cons c t)
    with Cons.prems have c: "canon ic c = canon ic x" and r: "(g, rest) \<in> set (rmatch ic (Lit xs) t)"
      by (simp_all split: if_splits)
    from Cons.IH[OF r] obtain m where "g = []" "t = m @ rest" "map (canon ic) m = map (canon ic) xs"
      by blast
    with c Cons have "s = (c # m) @ rest \<and> map (canon ic) (c # m) = map (canon ic) (x # xs)"
      by simp
    with \<open>g = []\<close> show ?thesis by blast
  qed
qed

lemma rmatch_Cls_elim:
  "(g, rest) \<in> set (rmatch ic (Cls k) s) \<Longrightarrow> g = [] \<and> (\<exists>c. s = c # rest \<and> inClass ic k c)"
  by (cases s) (simp_all split: if_splits)

lemma many_elim: "r \<in> set (many P s) \<Longrightarrow> \<exists>m. s = m @ r \<and> list_all P m"
proof (induction s)
  case Nil
  then show ?case by simp
next
  case (Cons c t)
  show ?case
  proof (cases "P c \<and> r \<in> set (many P t)")
    case True
    with Cons.IH obtain m where "t = m @ r" "list_all P m" by blast
    with True have "c # t = (c # m) @ r \<and> list_all P (c # m)" by simp
    then show ?thesis by blast
  next
    case False
    with Cons.prems have "r = c # t" by (simp split: if_splits)
    then have "c # t = [] @ r \<and> list_all P []" by simp
    then show ?thesis by blast
  qed
qed

lemma rmatch_Many1_elim:
  assumes "(g, rest) \<in> set (rmatch ic (Many1 k) s)"
  shows "g = [] \<and> (\<exists>m. s = m @ rest \<and> m \<noteq> [] \<and> list_all (inClass ic k) m)"
proof (cases s)
  case Nil
  with assms show ?thesis by simp
next
  case (Cons c t)
  with assms have c: "inClass ic k c" and r: "(g, rest) \<in> Pair [] ` set (many (inClass ic k) t)"
    by (simp_all split: if_splits)
  from r have g: "g = []" and "rest \<in> set (many (inClass ic k) t)" by auto
  then obtain m where "t = m @ rest" "list_all (inClass ic k) m"
    using many_elim by blast
  with c Cons have "s = (c # m) @ rest \<and> c # m \<noteq> [] \<and> list_all (inClass ic k) (c # m)"
    by simp
  with g show ?thesis by blast
qed

lemma rmatch_Cat_elim:
  assumes "(g, rest) \<in> set (rmatch ic (Cat a b) s)"
  shows "\<exists>g1 mid g2. (g1, mid) \<in> set (rmatch ic a s) \<and> (g2, rest) \<in> set (rmatch ic b mid)
           \<and> g = g1 @ g2"
proof -
  define f where "f = (\<lambda>(g1, s1). map (\<lambda>(g2, s2). (g1 @ g2, s2)) (rmatch ic b s1))"
  from assms have "(g, rest) \<in> set (concat (map f (rmatch ic a s)))"
    by (simp add: f_def)
  then obtain x where x: "x \<in> set (rmatch ic a s)" "(g, rest) \<in> set (f x)"
    unfolding set_concat set_map by blast
  obtain g1 mid where xm: "x = (g1, mid)" by (cases x)
  with x(2) have "(g, rest) \<in> (\<lambda>(g2, s2). (g1 @ g2, s2)) ` set (rmatch ic b mid)"
    by (simp add: f_def)
  then obtain y where y: "y \<in> set (rmatch ic b mid)" "(g, rest) = (\<lambda>(g2, s2). (g1 @ g2, s2)) y"
    by blast
  obtain g2 s2 where ym: "y = (g2, s2)" by (cases y)
  with y have "(g2, rest) \<in> set (rmatch ic b mid)" "g = g1 @ g2" by simp_all
  with x(1) xm show ?thesis by blast
qed

lemma rmatch_Cap_elim:
  assumes "(g, rest) \<in> set (rmatch ic (Cap r) s)"
  shows "\<exists>g'. (g', rest) \<in> set (rmatch ic r s) \<and> g = take (length s - length rest) s # g'"
proof -
  from assms obtain y where y: "y \<in> set (rmatch ic r s)"
    "(g, rest) = (\<lambda>(g, s'). (take (length s - length s') s # g, s')) y"
    by (simp only: rmatch.simps set_map) blast
  obtain g' s' where "y = (g', s')" by (cases y)
  with y show ?thesis by auto
qed

lemma rmatch_Eoi_elim: "(g, rest) \<in> set (rmatch ic Eoi s) \<Longrightarrow> g = [] \<and> s = [] \<and> rest = []"
  by (simp split: if_splits)

lemma exec_elim: "exec ic r s = Some g \<Longrightarrow> \<exists>t rest. (g, rest) \<in> set (rmatch ic r t)"
proof (induction s)
  case Nil
  then obtain m ms where "rmatch ic r [] = m # ms" "g = fst m"
    by (cases "rmatch ic r []") simp_all
  then have "(g, snd m) \<in> set (rmatch ic r [])" by simp
  then show ?case by blast
next
  case (Cons c t)
  show ?case
  proof (cases "rmatch ic r (c # t)")
    case Nil
    with Cons show ?thesis by simp
  next
    case (Cons m ms)
    with Cons.prems have "g = fst m" by simp
    with Cons have "(g, snd m) \<in> set (rmatch ic r (c # t))" by simp
    then show ?thesis by blast
  qed
qed

section \<open>Keys that the pattern matched\<close>

lemma upperChar_other: "\<not> isLower c \<Longrightarrow> upperChar c = c"
  by (simp add: isLower_def upperChar_def)

lemma lowerChar_other: "\<not> isUpper c \<Longrightarrow> lowerChar c = c"
  by (simp add: isUpper_def lowerChar_def)

lemma upper_not_lower: "isUpper c \<Longrightarrow> \<not> isLower c"
  by (auto simp: isUpper_def isLower_def)

lemma digit_not_lower: "isDigit c \<Longrightarrow> \<not> isLower c"
  by (auto simp: isDigit_def isLower_def)

lemma upperChar_upper: "isUpper c \<Longrightarrow> upperChar c = c"
  by (rule upperChar_other) (rule upper_not_lower)

lemma upperChar_digit: "isDigit c \<Longrightarrow> upperChar c = c"
  by (rule upperChar_other) (rule digit_not_lower)

lemma upperChar_lower: "isLower c \<Longrightarrow> isUpper (upperChar c)"
  by (auto simp: isLower_def isUpper_def upperChar_def)

lemma upperChar_idem: "upperChar (upperChar c) = upperChar c"
proof (cases "isLower c")
  case True
  then show ?thesis by (simp add: upperChar_upper upperChar_lower)
next
  case False
  then show ?thesis by (simp add: upperChar_other)
qed

lemma toUpperCase_idem: "toUpperCase (toUpperCase s) = toUpperCase s"
  by (simp add: toUpperCase_def upperChar_idem)

lemma inRange_AZ_upperChar:
  assumes "inRange CHR ''A'' CHR ''Z'' c \<or> inRange CHR ''A'' CHR ''Z'' (upperChar c)
    \<or> inRange CHR ''A'' CHR ''Z'' (lowerChar c)"
  shows "inRange CHR ''A'' CHR ''Z'' (upperChar c)"
proof (cases "isLower c")
  case True
  then show ?thesis by (rule inRange_lower)
next
  case False
  then have u: "upperChar c = c" by (rule upperChar_other)
  show ?thesis
  proof (cases "isUpper c")
    case True
    then show ?thesis unfolding u by (rule inRange_upper)
  next
    case False
    then have "lowerChar c = c" by (rule lowerChar_other)
    with assms u show ?thesis by simp
  qed
qed

lemma letter_upper:
  "inClass True (OneOf [upperAZ]) c \<Longrightarrow> inClass False (OneOf [upperAZ]) (upperChar c)"
  using inRange_AZ_upperChar[of c] by (auto simp: upperAZ_def)

lemma inRange_09_upperChar:
  assumes "inRange CHR ''0'' CHR ''9'' c \<or> inRange CHR ''0'' CHR ''9'' (upperChar c)
    \<or> inRange CHR ''0'' CHR ''9'' (lowerChar c)"
  shows "inRange CHR ''A'' CHR ''Z'' (upperChar c) \<or> inRange CHR ''0'' CHR ''9'' (upperChar c)"
proof (cases "isLower c")
  case True
  then show ?thesis by (simp add: inRange_lower)
next
  case False
  then have u: "upperChar c = c" by (rule upperChar_other)
  show ?thesis
  proof (cases "isUpper c")
    case True
    then show ?thesis unfolding u by (simp add: inRange_upper)
  next
    case False
    then have "lowerChar c = c" by (rule lowerChar_other)
    with assms u show ?thesis by simp
  qed
qed

lemma alnum_upper:
  "inClass True (OneOf [upperAZ, Range CHR ''0'' CHR ''9'']) c \<Longrightarrow>
   inClass False (OneOf [upperAZ, Range CHR ''0'' CHR ''9'']) (upperChar c)"
  using inRange_AZ_upperChar[of c] inRange_09_upperChar[of c] by (auto simp: upperAZ_def)

lemma digit_upper: "inClass True (OneOf [Digit]) c \<Longrightarrow> inClass False (OneOf [Digit]) (upperChar c)"
  by (simp add: upperChar_digit)

lemma canon_True: "canon True = upperChar"
  by (simp add: fun_eq_iff canon_def)

lemma hyphen_upper: "map (canon True) h = map (canon True) ''-'' \<Longrightarrow> map upperChar h = ''-''"
proof -
  have "upperChar CHR ''-'' = CHR ''-''"
    by (simp add: upperChar_def)
  moreover assume "map (canon True) h = map (canon True) ''-''"
  ultimately show ?thesis
    by (simp add: canon_True)
qed

lemma list_all_map: "list_all P xs \<Longrightarrow> (\<And>x. P x \<Longrightarrow> Q (f x)) \<Longrightarrow> list_all Q (map f xs)"
  by (induction xs) auto

lemma testFromStart_leaves: "leaves ic r s rest \<Longrightarrow> testFromStart ic r s"
  by (auto simp: leaves_def testFromStart_def)

lemma issueKey_upper:
  assumes "(g, rest) \<in> set (rmatch True issueKeyRe s)"
  shows "g = [] \<and> (\<exists>m. s = m @ rest \<and> testFromStart False wholeKeyRe (toUpperCase m))"
proof -
  from assms obtain g1 s1 g1' where 1: "(g1, s1) \<in> set (rmatch True (Cls (OneOf [upperAZ])) s)"
    and r1: "(g1', rest) \<in> set (rmatch True (Cat (Many1 (OneOf [upperAZ, Range CHR ''0'' CHR ''9'']))
        (Cat (Lit ''-'') (Many1 (OneOf [Digit])))) s1)" and e1: "g = g1 @ g1'"
    unfolding issueKeyRe_def seq.simps by (blast dest: rmatch_Cat_elim)
  from r1 obtain g2 s2 g2' where
    2: "(g2, s2) \<in> set (rmatch True (Many1 (OneOf [upperAZ, Range CHR ''0'' CHR ''9''])) s1)"
    and r2: "(g2', rest) \<in> set (rmatch True (Cat (Lit ''-'') (Many1 (OneOf [Digit]))) s2)"
    and e2: "g1' = g2 @ g2'"
    by (blast dest: rmatch_Cat_elim)
  from r2 obtain g3 s3 g4 where 3: "(g3, s3) \<in> set (rmatch True (Lit ''-'') s2)"
    and 4: "(g4, rest) \<in> set (rmatch True (Many1 (OneOf [Digit])) s3)" and e3: "g2' = g3 @ g4"
    by (blast dest: rmatch_Cat_elim)
  from 1 obtain l where l: "g1 = []" "s = l # s1" "inClass True (OneOf [upperAZ]) l"
    by (blast dest: rmatch_Cls_elim)
  from 2 obtain body where b: "g2 = []" "s1 = body @ s2" "body \<noteq> []"
    "list_all (inClass True (OneOf [upperAZ, Range CHR ''0'' CHR ''9''])) body"
    by (blast dest: rmatch_Many1_elim)
  from 3 obtain h where h: "g3 = []" "s2 = h @ s3" "map (canon True) h = map (canon True) ''-''"
    by (blast dest: rmatch_Lit_elim)
  from 4 obtain num where n: "g4 = []" "s3 = num @ rest" "num \<noteq> []"
    "list_all (inClass True (OneOf [Digit])) num"
    by (blast dest: rmatch_Many1_elim)
  define m where "m = l # body @ h @ num"
  have s: "s = m @ rest"
    by (simp add: m_def l(2) b(2) h(2) n(2))
  have g: "g = []"
    by (simp add: e1 e2 e3 l(1) b(1) h(1) n(1))
  have u: "toUpperCase m = upperChar l # map upperChar body @ ''-'' @ map upperChar num @ []"
    by (simp add: m_def toUpperCase_def hyphen_upper[OF h(3)])
  have k1: "leaves False (Cls (OneOf [upperAZ]))
      (upperChar l # map upperChar body @ ''-'' @ map upperChar num @ [])
      (map upperChar body @ ''-'' @ map upperChar num @ [])"
    by (rule leaves_Cls[OF letter_upper[OF l(3)]])
  have k2: "leaves False (Many1 (OneOf [upperAZ, Range CHR ''0'' CHR ''9'']))
      (map upperChar body @ ''-'' @ map upperChar num @ []) (''-'' @ map upperChar num @ [])"
    using b(3) by (intro leaves_Many1[OF refl] list_all_map[OF b(4)] alnum_upper) simp_all
  have k3: "leaves False (Lit ''-'') (''-'' @ map upperChar num @ []) (map upperChar num @ [])"
    by (rule leaves_Lit[OF refl])
  have k4: "leaves False (Many1 (OneOf [Digit])) (map upperChar num @ []) []"
    using n(3) by (intro leaves_Many1[OF refl] list_all_map[OF n(4)] digit_upper) simp_all
  have "leaves False issueKeyRe (toUpperCase m) []"
    unfolding issueKeyRe_def seq.simps u
    by (rule leaves_Cat[OF k1] leaves_Cat[OF k2] leaves_Cat[OF k3] k4)+
  then have "leaves False wholeKeyRe (toUpperCase m) []"
    unfolding wholeKeyRe_def by (rule leaves_Cat[OF _ leaves_Eoi])
  then have "testFromStart False wholeKeyRe (toUpperCase m)"
    by (rule testFromStart_leaves)
  with s g show ?thesis by blast
qed

lemma capture_issueKey_upper:
  assumes "(g, rest) \<in> set (rmatch True (Cap issueKeyRe) s)"
  shows "\<exists>m. g = [m] \<and> testFromStart False wholeKeyRe (toUpperCase m)"
proof -
  from assms obtain g' where g': "(g', rest) \<in> set (rmatch True issueKeyRe s)"
    "g = take (length s - length rest) s # g'"
    by (blast dest: rmatch_Cap_elim)
  from issueKey_upper[OF g'(1)] obtain m where "g' = []" "s = m @ rest"
    "testFromStart False wholeKeyRe (toUpperCase m)"
    by blast
  with g'(2) have "g = [m] \<and> testFromStart False wholeKeyRe (toUpperCase m)" by simp
  then show ?thesis by blast
qed

lemma validKey_upper:
  "testFromStart False wholeKeyRe (toUpperCase m) \<Longrightarrow> validKey (Some (toUpperCase m))"
  by (simp add: validKey_def toUpperCase_idem)

lemma urlKey_valid:
  assumes "exec True urlKeyRe s = Some (k # gs)"
  shows "validKey (Some (toUpperCase k))"
proof -
  from assms obtain t rest where "(k # gs, rest) \<in> set (rmatch True urlKeyRe t)"
    by (blast dest: exec_elim)
  then obtain g1 mid g2 where 1: "(g1, mid) \<in> set (rmatch True (Lit ''/browse/'') t)"
    and 2: "(g2, rest) \<in> set (rmatch True (Cap issueKeyRe) mid)" and e: "k # gs = g1 @ g2"
    unfolding urlKeyRe_def by (blast dest: rmatch_Cat_elim)
  from 1 have "g1 = []" by (blast dest: rmatch_Lit_elim)
  moreover from capture_issueKey_upper[OF 2] obtain m where "g2 = [m]"
    "testFromStart False wholeKeyRe (toUpperCase m)" by blast
  ultimately show ?thesis using e by (simp add: validKey_upper)
qed

lemma textKey_valid:
  assumes "exec True textKeyRe s = Some (k # gs)"
  shows "validKey (Some (toUpperCase k))"
proof -
  from assms obtain t rest where "(k # gs, rest) \<in> set (rmatch True (Cap issueKeyRe) t)"
    unfolding textKeyRe_def by (blast dest: exec_elim)
  from capture_issueKey_upper[OF this] show ?thesis by (auto simp: validKey_upper)
qed

lemma titleKey_valid:
  assumes "exec True titleRe s = Some (k # gs)"
  shows "validKey (Some (toUpperCase k))"
proof -
  from assms obtain t rest where "(k # gs, rest) \<in> set (rmatch True titleRe t)"
    by (blast dest: exec_elim)
  then obtain g1 mid g1' where 1: "(g1, mid) \<in> set (rmatch True (Lit ''['') t)"
    and r: "(g1', rest) \<in> set (rmatch True (Cat (Cap issueKeyRe)
        (seq [Lit '']'', Many0 (OneOf [White]), Cap (Lazy1 AnyChar),
          Opt (seq [Many0 (OneOf [White]), Lit ''-'', Many0 (OneOf [White]), Lit ''Jira'']), Eoi])) mid)"
    and e: "k # gs = g1 @ g1'"
    unfolding titleRe_def seq.simps(3) by (blast dest: rmatch_Cat_elim)
  from r obtain g2 mid2 g3 where 2: "(g2, mid2) \<in> set (rmatch True (Cap issueKeyRe) mid)"
    and e2: "g1' = g2 @ g3"
    by (blast dest: rmatch_Cat_elim)
  from 1 have "g1 = []" by (blast dest: rmatch_Lit_elim)
  moreover from capture_issueKey_upper[OF 2] obtain m where "g2 = [m]"
    "testFromStart False wholeKeyRe (toUpperCase m)" by blast
  ultimately show ?thesis using e e2 by (simp add: validKey_upper)
qed

lemma nonempty_has_pair: "xs \<noteq> [] \<Longrightarrow> \<exists>a b. (a, b) \<in> set xs"
  by (cases xs) auto

lemma selectedIssue_valid:
  assumes "testFromStart True wholeKeyRe v"
  shows "validKey (Some (toUpperCase v))"
proof -
  from assms have "rmatch True (Cat issueKeyRe Eoi) v \<noteq> []"
    unfolding testFromStart_def wholeKeyRe_def .
  then obtain g rest where "(g, rest) \<in> set (rmatch True (Cat issueKeyRe Eoi) v)"
    by (blast dest: nonempty_has_pair)
  then obtain g1 mid g2 where 1: "(g1, mid) \<in> set (rmatch True issueKeyRe v)"
    and 2: "(g2, rest) \<in> set (rmatch True Eoi mid)"
    by (blast dest: rmatch_Cat_elim)
  from 2 have "mid = []" by (blast dest: rmatch_Eoi_elim)
  with issueKey_upper[OF 1] show ?thesis by (auto simp: validKey_upper)
qed

lemma valid_keyFromUrl: "validKey (key d) \<Longrightarrow> validKey (key (keyFromUrl p d))"
  by (auto simp: keyFromUrl_def urlKey_valid split: option.splits list.splits)

lemma valid_keyFromSelectedIssue:
  "validKey (key d) \<Longrightarrow> validKey (key (keyFromSelectedIssue p d))"
  by (auto simp: keyFromSelectedIssue_def selectedIssue_valid split: option.splits)

lemma valid_keyFromBreadcrumb:
  "querySelector p breadcrumbSelector = None \<Longrightarrow> keyFromBreadcrumb p d = d"
  by (simp add: keyFromBreadcrumb_def)

lemma valid_keyLoop: "validKey (key d) \<Longrightarrow> validKey (key (keyLoop p sels d))"
  by (induction sels) (auto simp: textKey_valid split: option.splits list.splits)

lemma valid_keyFromSelectors: "validKey (key d) \<Longrightarrow> validKey (key (keyFromSelectors p d))"
  by (simp add: keyFromSelectors_def valid_keyLoop)

lemma key_summaryLoop: "key (summaryLoop p sels d) = key d"
  by (induction sels) (simp_all split: option.splits)

lemma valid_fromTitle: "validKey (key d) \<Longrightarrow> validKey (key (fromTitle p d))"
  by (auto simp: fromTitle_def titleKey_valid split: option.splits list.splits)

text \<open>
  Without a breadcrumb link every key that \<open>extractIssueData\<close> returns is matched by the
  key pattern from end to end and is in upper case.
\<close>

lemma keys_valid_without_breadcrumb:
  assumes "querySelector p breadcrumbSelector = None"
  shows "validKey (key (extractIssueData p))"
proof -
  have "validKey (key \<lparr>key = None, summary = None, url = locationHref p\<rparr>)"
    by (simp add: validKey_def)
  then have "validKey (key (keyFromSelectedIssue p (keyFromUrl p
      \<lparr>key = None, summary = None, url = locationHref p\<rparr>)))"
    by (intro valid_keyFromSelectedIssue valid_keyFromUrl)
  then have "validKey (key (fromTitle p (summaryLoop p summarySelectors (keyFromSelectors p
       (keyFromBreadcrumb p (keyFromSelectedIssue p (keyFromUrl p
         \<lparr>key = None, summary = None, url = locationHref p\<rparr>)))))))"
    unfolding valid_keyFromBreadcrumb[OF assms]
    by (intro valid_fromTitle) (simp add: key_summaryLoop valid_keyFromSelectors)
  then show ?thesis
    by (simp add: extractIssueData_def key_canonicalUrl)
qed

section \<open>The claims about extractIssueData\<close>

text \<open>
  C6.  The claim: a key that \<open>extractIssueData\<close> returns matches \<open>[A-Z][A-Z0-9]+-[0-9]+\<close>
  and is in upper case.  It holds on every page without a breadcrumb link (lemma
  \<open>keys_valid_without_breadcrumb\<close>).  On a page whose URL and query hold no key and whose
  breadcrumb link has the text \<open>Projects\<close>, the key returned is that text: the breadcrumb
  strategy takes the trimmed text as it is, where every other strategy matches the
  pattern and converts to upper case.
\<close>

theorem breadcrumb_text_becomes_key:
  "querySelector breadcrumbPage breadcrumbSelector = Some '' Projects ''
   \<and> key (extractIssueData breadcrumbPage) = Some ''Projects''
   \<and> \<not> testFromStart True wholeKeyRe ''Projects''
   \<and> \<not> test True textKeyRe ''Projects''"
  by code_simp

text \<open>
  C9, as amended.  When the key that \<open>extractIssueData\<close> returns is neither \<open>null\<close> nor
  empty, the URL returned is the origin of the page, \<open>/browse/\<close> and the key, which need
  not be the URL of the page; when the key returned is \<open>null\<close>, the URL returned is the
  URL of the page.
\<close>

theorem url_canonical_iff_key:
  "(\<forall>k. key (extractIssueData p) = Some k \<and> k \<noteq> []
        \<longrightarrow> url (extractIssueData p) = locationOrigin p @ ''/browse/'' @ k)
   \<and> (key (extractIssueData p) = None \<longrightarrow> url (extractIssueData p) = locationHref p)"
proof -
  define d where "d = fromTitle p (summaryLoop p summarySelectors (keyFromSelectors p
       (keyFromBreadcrumb p (keyFromSelectedIssue p (keyFromUrl p
         \<lparr>key = None, summary = None, url = locationHref p\<rparr>)))))"
  have e: "extractIssueData p = canonicalUrl p d"
    by (simp add: extractIssueData_def d_def)
  have u: "url d = locationHref p"
    by (simp add: d_def url_fromTitle url_summaryLoop url_keyFromSelectors url_keyFromBreadcrumb
        url_keyFromSelectedIssue url_keyFromUrl)
  show ?thesis
    unfolding e key_canonicalUrl
    using u by (auto simp: url_canonicalUrl_key url_canonicalUrl_none)
qed

theorem url_canonical_iff_key_witness:
  "key (extractIssueData selectedPage) = Some ''PROJ-7''
   \<and> url (extractIssueData selectedPage) = ''https://mycompany.atlassian.net/browse/PROJ-7''
   \<and> url (extractIssueData selectedPage) \<noteq> locationHref selectedPage
   \<and> key (extractIssueData plainPage) = None
   \<and> url (extractIssueData plainPage) = ''https://mycompany.atlassian.net/jira/dashboards/1''"
proof -
  have k: "key (extractIssueData selectedPage) = Some ''PROJ-7''"
    by code_simp
  have n: "key (extractIssueData plainPage) = None"
    by code_simp
  from url_canonical_iff_key[of selectedPage] k
  have 1: "url (extractIssueData selectedPage) = ''https://mycompany.atlassian.net/browse/PROJ-7''"
    by (simp add: selectedPage_def)
  from url_canonical_iff_key[of plainPage] n
  have 2: "url (extractIssueData plainPage) = ''https://mycompany.atlassian.net/jira/dashboards/1''"
    by (simp add: plainPage_def)
  have 3: "''https://mycompany.atlassian.net/browse/PROJ-7'' \<noteq> locationHref selectedPage"
    by (simp add: selectedPage_def)
  from k n 1 2 3 show ?thesis by simp
qed

text \<open>
  C9 as stated fails on an empty key: a breadcrumb link with blank text gives the key
  \<open>""\<close>, which is not \<open>null\<close>, and the URL returned is the URL of the page.
\<close>

theorem empty_key_keeps_page_url:
  "key (extractIssueData blankBreadcrumbPage) = Some []
   \<and> url (extractIssueData blankBreadcrumbPage) = locationHref blankBreadcrumbPage
   \<and> url (extractIssueData blankBreadcrumbPage)
       \<noteq> locationOrigin blankBreadcrumbPage @ ''/browse/'' @ []"
  by code_simp

end
